theory Spec2Isabelle
  imports Main "HOL-Library.Word" "HOL-Library.AList" "HOL-Library.List_Lexorder"
begin

section \<open>JavaScript strings\<close>

text \<open>
  A JavaScript string is a sequence of UTF-16 code units; \<open>length\<close>, \<open>substring\<close>,
  \<open>trim\<close> and a regular expression without the \<open>u\<close> flag all work on code units.
  String literals of the source are written through \<open>str\<close>.
\<close>

type_synonym unit16 = "16 word"
type_synonym jsstring = "unit16 list"

definition str :: "string \<Rightarrow> jsstring" where
  "str s = map (\<lambda>c. of_nat (of_char c)) s"

text \<open>\<open>String.prototype.trim\<close> strips WhiteSpace and LineTerminator code units.\<close>

definition isWhiteSpace :: "unit16 \<Rightarrow> bool" where
  "isWhiteSpace c =
     (unat c \<in> {0x09, 0x0A, 0x0B, 0x0C, 0x0D, 0x20, 0xA0, 0x1680, 0x2028, 0x2029,
                 0x202F, 0x205F, 0x3000, 0xFEFF}
      \<or> (0x2000 \<le> unat c \<and> unat c \<le> 0x200A))"

definition trim :: "jsstring \<Rightarrow> jsstring" where
  "trim s = rev (dropWhile isWhiteSpace (rev (dropWhile isWhiteSpace s)))"

text \<open>
  \<open>toLowerCase\<close> on the ASCII letters. The source only compares the lowered string's
  end with \<open>.pdf\<close>; no code unit outside \<open>A-Z\<close> lowers to one of \<open>. p d f\<close>, so the
  other code units are left as they are.
\<close>

definition lowerUnit :: "unit16 \<Rightarrow> unit16" where
  "lowerUnit c = (if 0x41 \<le> unat c \<and> unat c \<le> 0x5A then c + 0x20 else c)"

definition toLowerCase :: "jsstring \<Rightarrow> jsstring" where
  "toLowerCase s = map lowerUnit s"

definition endsWith :: "jsstring \<Rightarrow> jsstring \<Rightarrow> bool" where
  "endsWith s suffix =
     (length suffix \<le> length s \<and> drop (length s - length suffix) s = suffix)"

definition substring0 :: "jsstring \<Rightarrow> nat \<Rightarrow> jsstring" where
  "substring0 s n = take n s"

text \<open>\<open>String(n)\<close> of a non-negative integer: its decimal digits.\<close>

definition digitUnit :: "nat \<Rightarrow> unit16" where
  "digitUnit d = of_nat (48 + d)"

fun String_of_nat :: "nat \<Rightarrow> jsstring" where
  "String_of_nat n =
     (if n < 10 then [digitUnit n]
      else String_of_nat (n div 10) @ [digitUnit (n mod 10)])"

declare String_of_nat.simps [simp del]

definition padStart :: "jsstring \<Rightarrow> nat \<Rightarrow> unit16 \<Rightarrow> jsstring" where
  "padStart s n c = replicate (n - length s) c @ s"

section \<open>The naming functions of the PDF preview (sanitizePdfName)\<close>

text \<open>The local-time fields that \<open>new Date()\<close> is read through.\<close>

record jsdate =
  getFullYear :: nat
  getMonth :: nat
  getDate :: nat
  getHours :: nat
  getMinutes :: nat
  getSeconds :: nat

definition generateDefaultPdfName :: "jsdate \<Rightarrow> nat \<Rightarrow> jsstring" where
  "generateDefaultPdfName now imageCount =
     (let year = getFullYear now;
          month = padStart (String_of_nat (getMonth now + 1)) 2 0x30;
          day = padStart (String_of_nat (getDate now)) 2 0x30;
          hours = padStart (String_of_nat (getHours now)) 2 0x30;
          minutes = padStart (String_of_nat (getMinutes now)) 2 0x30;
          seconds = padStart (String_of_nat (getSeconds now)) 2 0x30
      in str ''Document-'' @ String_of_nat year @ str ''-'' @ month @ str ''-'' @ day
         @ str ''-'' @ hours @ minutes @ seconds @ str ''-'' @ String_of_nat imageCount
         @ str ''images.pdf'')"

text \<open>The character class \<open>[<>:"/\\|?*\x00-\x1F]\<close>.\<close>

definition isInvalidUnit :: "unit16 \<Rightarrow> bool" where
  "isInvalidUnit c =
     (unat c \<in> {0x3C, 0x3E, 0x3A, 0x22, 0x2F, 0x5C, 0x7C, 0x3F, 0x2A} \<or> unat c \<le> 0x1F)"

text \<open>\<open>replace(/^\.+|\.+$/g, "")\<close>: the leading and the trailing run of dots go.\<close>

definition stripDots :: "jsstring \<Rightarrow> jsstring" where
  "stripDots s = rev (dropWhile (\<lambda>c. c = 0x2E) (rev (dropWhile (\<lambda>c. c = 0x2E) s)))"

text \<open>
  \<open>sanitizePdfName\<close> closes over \<open>editingImages.length\<close> and reads the clock through
  \<open>generateDefaultPdfName\<close>; both are parameters here.
\<close>

definition sanitizePdfName :: "jsdate \<Rightarrow> nat \<Rightarrow> jsstring \<Rightarrow> jsstring" where
  "sanitizePdfName now editingImagesLength name =
     (let sanitized = map (\<lambda>c. if isInvalidUnit c then 0x5F else c) name;
          sanitized = stripDots (trim sanitized);
          sanitized = (if \<not> endsWith (toLowerCase sanitized) (str ''.pdf'')
                       then sanitized @ str ''.pdf'' else sanitized);
          maxLength = 100;
          sanitized = (if length sanitized > maxLength
                       then substring0 sanitized maxLength else sanitized)
      in if sanitized = str ''.pdf'' \<or> trim sanitized = []
         then generateDefaultPdfName now editingImagesLength
         else sanitized)"

section \<open>The naming function of the document store (sanitizeFileName)\<close>

text \<open>The character class \<open>[a-zA-Z0-9._-]\<close>.\<close>

definition isSafeUnit :: "unit16 \<Rightarrow> bool" where
  "isSafeUnit c =
     ((0x61 \<le> unat c \<and> unat c \<le> 0x7A) \<or> (0x41 \<le> unat c \<and> unat c \<le> 0x5A)
      \<or> (0x30 \<le> unat c \<and> unat c \<le> 0x39) \<or> unat c \<in> {0x2E, 0x5F, 0x2D})"

text \<open>\<open>replace(/_{2,}/g, "_")\<close>: every run of two or more underscores becomes one.\<close>

fun collapseUnderscores :: "jsstring \<Rightarrow> jsstring" where
  "collapseUnderscores (a # b # s) =
     (if a = 0x5F \<and> b = 0x5F then collapseUnderscores (b # s)
      else a # collapseUnderscores (b # s))"
| "collapseUnderscores s = s"

text \<open>\<open>/\.pdf$/i.test(s)\<close>: the last four code units are a dot and p, d, f in either case.\<close>

definition hasPdfExt :: "jsstring \<Rightarrow> bool" where
  "hasPdfExt s = endsWith (toLowerCase s) (str ''.pdf'')"

definition sanitizeFileName :: "jsstring \<Rightarrow> jsstring" where
  "sanitizeFileName name =
     (let sanitized = trim (collapseUnderscores
                              (map (\<lambda>c. if \<not> isSafeUnit c then 0x5F else c) name))
      in if hasPdfExt sanitized then sanitized else sanitized @ str ''.pdf'')"

text \<open>\<open>cleanName.replace(/\.pdf$/i, "")\<close>.\<close>

definition removePdfExt :: "jsstring \<Rightarrow> jsstring" where
  "removePdfExt s = (if hasPdfExt s then take (length s - 4) s else s)"

section \<open>The platform: file system, clock and their failures\<close>

text \<open>
  The store works through \<open>expo-file-system\<close>. A \<open>world\<close> is the state the platform
  keeps: the files by URI, in the order in which a directory enumerates them, and the
  number of clock readings taken so far. A \<open>platform\<close> fixes what the store cannot
  decide: where the document directory is, what the clock reads at each reading, and
  which calls reject (with which message). Console logging is not modelled.
\<close>

datatype error = Error string

fun message :: "error \<Rightarrow> string" where
  "message (Error m) = m"

text \<open>
  The \<open>FileInfo\<close> of an existing file; \<open>exists: false\<close> is \<open>None\<close>. Sizes and
  modification times are natural numbers.
\<close>

record fileInfo =
  infoSize :: nat
  infoModificationTime :: nat

text \<open>
  How a \<open>copyAsync\<close> ends: it writes the destination, stamped with a modification time,
  or it rejects, and may leave a partially written file at the destination.
\<close>

datatype copyOutcome = CopySucceeds nat | CopyRejects string "fileInfo option"

record platform =
  documentDirectory :: "jsstring option"
  clock :: "nat \<Rightarrow> nat"
  getInfoRejects :: "jsstring \<Rightarrow> string option"
  readDirectoryRejects :: "string option"
  copyOutcomeOf :: "jsstring \<Rightarrow> jsstring \<Rightarrow> copyOutcome"
  deleteRejects :: "jsstring \<Rightarrow> string option"

record world =
  files :: "(jsstring \<times> fileInfo) list"
  ticks :: nat

definition Date_now :: "platform \<Rightarrow> world \<Rightarrow> nat \<times> world" where
  "Date_now pf w = (clock pf (ticks w), w\<lparr>ticks := Suc (ticks w)\<rparr>)"

definition getInfoAsync :: "platform \<Rightarrow> world \<Rightarrow> jsstring \<Rightarrow> error + fileInfo option" where
  "getInfoAsync pf w uri =
     (case getInfoRejects pf uri of
        Some m \<Rightarrow> Inl (Error m)
      | None \<Rightarrow> Inr (map_of (files w) uri))"

definition copyAsync ::
  "platform \<Rightarrow> world \<Rightarrow> jsstring \<Rightarrow> jsstring \<Rightarrow> (error + unit) \<times> world" where
  "copyAsync pf w from to =
     (case map_of (files w) from of
        None \<Rightarrow> (Inl (Error ''File to copy not found''), w)
      | Some f \<Rightarrow>
         (case copyOutcomeOf pf from to of
            CopySucceeds t \<Rightarrow>
              (Inr (), w\<lparr>files := AList.update to (f\<lparr>infoModificationTime := t\<rparr>) (files w)\<rparr>)
          | CopyRejects m partial \<Rightarrow>
              (Inl (Error m),
               case partial of
                 None \<Rightarrow> w
               | Some p \<Rightarrow> w\<lparr>files := AList.update to p (files w)\<rparr>)))"

text \<open>\<open>deleteAsync(uri, { idempotent: true })\<close>: a missing file is not an error.\<close>

definition deleteAsync :: "platform \<Rightarrow> world \<Rightarrow> jsstring \<Rightarrow> (error + unit) \<times> world" where
  "deleteAsync pf w uri =
     (case deleteRejects pf uri of
        Some m \<Rightarrow> (Inl (Error m), w)
      | None \<Rightarrow> (Inr (), w\<lparr>files := AList.delete uri (files w)\<rparr>))"

text \<open>
  \<open>readDirectoryAsync\<close> gives the names of the files directly in the directory: the
  rest of a URI that starts with the directory's and has no further slash.
\<close>

definition isChildOf :: "jsstring \<Rightarrow> jsstring \<Rightarrow> bool" where
  "isChildOf dir p =
     (take (length dir) p = dir \<and> length dir < length p
      \<and> 0x2F \<notin> set (drop (length dir) p))"

definition readDirectoryAsync :: "platform \<Rightarrow> world \<Rightarrow> jsstring \<Rightarrow> error + jsstring list" where
  "readDirectoryAsync pf w dir =
     (case readDirectoryRejects pf of
        Some m \<Rightarrow> Inl (Error m)
      | None \<Rightarrow> Inr (map (\<lambda>(p, f). drop (length dir) p)
                       (filter (\<lambda>(p, f). isChildOf dir p) (files w))))"

text \<open>
  \<open>Array.prototype.sort\<close> with a comparator. ECMAScript specifies a stable sort: an
  element goes before the first one that the comparator does not put it after.
\<close>

fun insertBy :: "('a \<Rightarrow> 'a \<Rightarrow> int) \<Rightarrow> 'a \<Rightarrow> 'a list \<Rightarrow> 'a list" where
  "insertBy cmp x [] = [x]"
| "insertBy cmp x (y # ys) = (if cmp x y \<le> 0 then x # y # ys else y # insertBy cmp x ys)"

definition Array_sort :: "('a \<Rightarrow> 'a \<Rightarrow> int) \<Rightarrow> 'a list \<Rightarrow> 'a list" where
  "Array_sort cmp xs = foldr (insertBy cmp) xs []"

section \<open>The document store\<close>

text \<open>The \<open>catch\<close> of \<open>renamePdf\<close>: every error is thrown again under a new message.\<close>

definition renameFailure :: "error \<Rightarrow> error" where
  "renameFailure e = Error (''Failed to rename PDF: '' @ message e)"

text \<open>
  The end of \<open>renamePdf\<close>, reached when the target is free: copy the source to the
  target, then try to delete the source; a failure of that deletion is only logged.
\<close>

definition copyToTarget ::
  "platform \<Rightarrow> world \<Rightarrow> jsstring \<Rightarrow> jsstring \<Rightarrow> (error + jsstring) \<times> world" where
  "copyToTarget pf w sourceUri targetUri =
     (case copyAsync pf w sourceUri targetUri of
        (Inl e, w1) \<Rightarrow> (Inl (renameFailure e), w1)
      | (Inr _, w1) \<Rightarrow>
          (case deleteAsync pf w1 sourceUri of
             (Inl deleteError, w2) \<Rightarrow> (Inr targetUri, w2)
           | (Inr _, w2) \<Rightarrow> (Inr targetUri, w2)))"

text \<open>
  \<open>renamePdf\<close> calls itself when the target exists, with no bound on the depth: not
  returning is the value \<open>None\<close>. The inner call sanitizes the new name again, and an
  error of the inner call passes through the outer \<open>catch\<close> as well.
\<close>

partial_function (option) renamePdf ::
  "platform \<Rightarrow> world \<Rightarrow> jsstring \<Rightarrow> jsstring \<Rightarrow> ((error + jsstring) \<times> world) option" where
  "renamePdf pf w sourceUri newFileName =
     (let cleanName = sanitizeFileName newFileName in
      case documentDirectory pf of
        None \<Rightarrow> Some (Inl (renameFailure (Error ''Cannot access document directory'')), w)
      | Some docDir \<Rightarrow>
         (case getInfoAsync pf w sourceUri of
            Inl e \<Rightarrow> Some (Inl (renameFailure e), w)
          | Inr sourceInfo \<Rightarrow>
             if sourceInfo = None
             then Some (Inl (renameFailure (Error ''Source PDF file not found'')), w)
             else
               let targetUri = docDir @ cleanName in
               (case getInfoAsync pf w targetUri of
                  Inl e \<Rightarrow> Some (Inl (renameFailure e), w)
                | Inr targetInfo \<Rightarrow>
                   if targetInfo \<noteq> None
                   then
                     (let (timestamp, w1) = Date_now pf w;
                          nameWithoutExt = removePdfExt cleanName;
                          uniqueName = nameWithoutExt @ str ''_'' @ String_of_nat timestamp
                                       @ str ''.pdf''
                      in Option.bind (renamePdf pf w1 sourceUri uniqueName)
                           (\<lambda>(r, w2). Some (case r of
                                               Inl e \<Rightarrow> Inl (renameFailure e)
                                             | Inr uri \<Rightarrow> Inr uri, w2)))
                   else Some (copyToTarget pf w sourceUri targetUri))))"

text \<open>
  An entry of \<open>listAllPdfs\<close>. Its display strings (\<open>id\<close>, \<open>size\<close>, \<open>date\<close>: a clock
  reading, \<open>toFixed\<close> and \<open>toLocaleDateString\<close>) are left out. A number \<open>x\<close> is
  \<open>x || 0\<close>, so \<open>fileInfo.size || 0\<close> and \<open>fileInfo.modificationTime || 0\<close> are the
  fields themselves. A file that a metadata read rejects, or that no longer exists, is
  dropped; a directory that cannot be read gives the empty list.
\<close>

record pdfEntry =
  name :: jsstring
  uri :: jsstring
  rawSize :: nat
  modificationTime :: nat

definition listAllPdfs :: "platform \<Rightarrow> world \<Rightarrow> pdfEntry list" where
  "listAllPdfs pf w =
     (case documentDirectory pf of
        None \<Rightarrow> []
      | Some docDir \<Rightarrow>
         (case readDirectoryAsync pf w docDir of
            Inl e \<Rightarrow> []
          | Inr fileNames \<Rightarrow>
             let pdfFiles = filter (\<lambda>file. endsWith (toLowerCase file) (str ''.pdf'')) fileNames;
                 pdfsWithInfo =
                   map (\<lambda>file.
                          let fileUri = docDir @ file in
                          case getInfoAsync pf w fileUri of
                            Inl e \<Rightarrow> None
                          | Inr None \<Rightarrow> None
                          | Inr (Some fileInfo) \<Rightarrow>
                              Some \<lparr>name = file, uri = fileUri, rawSize = infoSize fileInfo,
                                    modificationTime = infoModificationTime fileInfo\<rparr>)
                       pdfFiles;
                 validPdfs = List.map_filter id pdfsWithInfo
             in Array_sort (\<lambda>a b. int (modificationTime b) - int (modificationTime a))
                  validPdfs))"

definition deletePdfFile :: "platform \<Rightarrow> world \<Rightarrow> jsstring \<Rightarrow> (error + bool) \<times> world" where
  "deletePdfFile pf w pdfUri =
     (case getInfoAsync pf w pdfUri of
        Inl e \<Rightarrow> (Inl e, w)
      | Inr fileInfo \<Rightarrow>
         if fileInfo \<noteq> None
         then (case deleteAsync pf w pdfUri of
                 (Inl e, w1) \<Rightarrow> (Inl e, w1)
               | (Inr _, w1) \<Rightarrow> (Inr True, w1))
         else (Inr False, w))"

section \<open>Notions used to state the properties\<close>

text \<open>Two underscores next to each other somewhere in the string.\<close>

fun adjacentUnderscores :: "jsstring \<Rightarrow> bool" where
  "adjacentUnderscores (a # b # s) = ((a = 0x5F \<and> b = 0x5F) \<or> adjacentUnderscores (b # s))"
| "adjacentUnderscores s = False"

text \<open>The value of \<open>sanitized\<close> in \<open>sanitizeFileName\<close> before \<open>trim\<close>.\<close>

definition cleaned :: "jsstring \<Rightarrow> jsstring" where
  "cleaned s = collapseUnderscores (map (\<lambda>c. if \<not> isSafeUnit c then 0x5F else c) s)"

text \<open>A date to evaluate the naming functions at: 2024-01-05 03:04:09.\<close>

definition someDate :: jsdate where
  "someDate = \<lparr>getFullYear = 2024, getMonth = 0, getDate = 5, getHours = 3,
                getMinutes = 4, getSeconds = 9\<rparr>"

text \<open>The value of \<open>sanitized\<close> in \<open>sanitizePdfName\<close> when the last test is reached.\<close>

definition pdfNameCandidate :: "jsstring \<Rightarrow> jsstring" where
  "pdfNameCandidate raw =
     (let sanitized = map (\<lambda>c. if isInvalidUnit c then 0x5F else c) raw;
          sanitized = stripDots (trim sanitized);
          sanitized = (if \<not> endsWith (toLowerCase sanitized) (str ''.pdf'')
                       then sanitized @ str ''.pdf'' else sanitized)
      in if length sanitized > 100 then substring0 sanitized 100 else sanitized)"

text \<open>
  A letter, digit, dot or hyphen: a safe code unit that no step of
  \<open>sanitizeFileName\<close> removes.
\<close>

definition isWordUnit :: "unit16 \<Rightarrow> bool" where
  "isWordUnit c = (isSafeUnit c \<and> c \<noteq> 0x5F)"

text \<open>The number of such code units in a string.\<close>

definition weight :: "jsstring \<Rightarrow> nat" where
  "weight s = length (filter isWordUnit s)"

text \<open>
  The \<open>uniqueName\<close> that \<open>renamePdf\<close> builds from a taken
  \<open>cleanName\<close> and the clock reading number \<open>t\<close>.
\<close>

definition nextName :: "platform \<Rightarrow> nat \<Rightarrow> jsstring \<Rightarrow> jsstring" where
  "nextName pf t cleanName =
     removePdfExt cleanName @ str ''_'' @ String_of_nat (clock pf t) @ str ''.pdf''"

text \<open>The number of files at least as heavy as the target: it bounds the retries left.\<close>

definition heavier :: "jsstring \<Rightarrow> world \<Rightarrow> jsstring \<Rightarrow> nat" where
  "heavier d w raw =
     length (filter (\<lambda>(p, f). weight (d @ sanitizeFileName raw) \<le> weight p) (files w))"

text \<open>What the \<open>catch\<close> of an outer call does to the result of the inner call.\<close>

definition rethrow :: "(error + jsstring) \<times> world \<Rightarrow> (error + jsstring) \<times> world" where
  "rethrow = (\<lambda>(r, w2). (case r of Inl e \<Rightarrow> Inl (renameFailure e) | Inr u \<Rightarrow> Inr u, w2))"

text \<open>
  The candidate of the i-th retry: each retry strips the extension of the last
  candidate, appends an underscore, the next clock reading and the extension, and
  sanitizes the result.
\<close>

fun candidateName :: "platform \<Rightarrow> nat \<Rightarrow> jsstring \<Rightarrow> nat \<Rightarrow> jsstring" where
  "candidateName pf t raw 0 = sanitizeFileName raw"
| "candidateName pf t raw (Suc i) =
     sanitizeFileName (nextName pf (t + i) (candidateName pf t raw i))"

text \<open>
  The value of \<open>validPdfs\<close> in \<open>listAllPdfs\<close>: the entries in
  the order of the directory.
\<close>

definition validPdfsOf :: "platform \<Rightarrow> world \<Rightarrow> jsstring \<Rightarrow> jsstring list \<Rightarrow> pdfEntry list" where
  "validPdfsOf pf w docDir fileNames =
     List.map_filter id
       (map (\<lambda>file.
               let fileUri = docDir @ file in
               case getInfoAsync pf w fileUri of
                 Inl e \<Rightarrow> None
               | Inr None \<Rightarrow> None
               | Inr (Some fileInfo) \<Rightarrow>
                   Some \<lparr>name = file, uri = fileUri, rawSize = infoSize fileInfo,
                         modificationTime = infoModificationTime fileInfo\<rparr>)
          (filter (\<lambda>file. endsWith (toLowerCase file) (str ''.pdf'')) fileNames))"

text \<open>The comparator of \<open>listAllPdfs\<close>.\<close>

definition newestFirst :: "pdfEntry \<Rightarrow> pdfEntry \<Rightarrow> int" where
  "newestFirst a b = int (modificationTime b) - int (modificationTime a)"

section \<open>Platforms and worlds to evaluate the store at\<close>

text \<open>The document directory of the examples.\<close>

definition docs :: jsstring where
  "docs = str ''/d/''"

text \<open>
  A platform where no call rejects: the clock reads 1700, 1701, ... and every copy is
  stamped 50.
\<close>

definition somePlatform :: platform where
  "somePlatform =
     \<lparr>documentDirectory = Some docs, clock = (\<lambda>i. 1700 + i), getInfoRejects = (\<lambda>p. None),
      readDirectoryRejects = None, copyOutcomeOf = (\<lambda>a b. CopySucceeds 50),
      deleteRejects = (\<lambda>p. None)\<rparr>"

text \<open>Two rendered files outside the document directory, which is empty.\<close>

definition someWorld :: world where
  "someWorld =
     \<lparr>files = [(str ''/c/1.pdf'', \<lparr>infoSize = 900, infoModificationTime = 40\<rparr>),
               (str ''/c/2.pdf'', \<lparr>infoSize = 800, infoModificationTime = 41\<rparr>)],
      ticks = 0\<rparr>"

text \<open>Two documents with the same modification time, enumerated \<open>b.pdf\<close> first.\<close>

definition tieWorld :: world where
  "tieWorld =
     \<lparr>files = [(str ''/d/b.pdf'', \<lparr>infoSize = 1, infoModificationTime = 5\<rparr>),
               (str ''/d/a.pdf'', \<lparr>infoSize = 2, infoModificationTime = 5\<rparr>)],
      ticks = 0\<rparr>"

text \<open>Three documents and a text file, enumerated in no particular order.\<close>

definition threeWorld :: world where
  "threeWorld =
     \<lparr>files = [(str ''/d/x.pdf'', \<lparr>infoSize = 1, infoModificationTime = 20\<rparr>),
               (str ''/d/y.PDF'', \<lparr>infoSize = 2, infoModificationTime = 30\<rparr>),
               (str ''/d/notes.txt'', \<lparr>infoSize = 2, infoModificationTime = 35\<rparr>),
               (str ''/d/z.pdf'', \<lparr>infoSize = 3, infoModificationTime = 10\<rparr>)],
      ticks = 0\<rparr>"

text \<open>The entries of the documents of \<open>threeWorld\<close>.\<close>

definition entryX :: pdfEntry where
  "entryX = \<lparr>name = str ''x.pdf'', uri = str ''/d/x.pdf'', rawSize = 1, modificationTime = 20\<rparr>"

definition entryY :: pdfEntry where
  "entryY = \<lparr>name = str ''y.PDF'', uri = str ''/d/y.PDF'', rawSize = 2, modificationTime = 30\<rparr>"

definition entryZ :: pdfEntry where
  "entryZ = \<lparr>name = str ''z.pdf'', uri = str ''/d/z.pdf'', rawSize = 3, modificationTime = 10\<rparr>"

text \<open>A platform where every copy rejects and leaves a partial file of 10 bytes.\<close>

definition fullDisk :: platform where
  "fullDisk = somePlatform\<lparr>copyOutcomeOf :=
     (\<lambda>a b. CopyRejects ''No space left on device''
               (Some \<lparr>infoSize = 10, infoModificationTime = 50\<rparr>))\<rparr>"

text \<open>A platform where no file can be deleted.\<close>

definition stuckSource :: platform where
  "stuckSource = somePlatform\<lparr>deleteRejects := (\<lambda>p. Some ''Permission denied'')\<rparr>"

text \<open>A platform whose clock always reads 7.\<close>

definition frozenClock :: platform where
  "frozenClock = somePlatform\<lparr>clock := (\<lambda>i. 7)\<rparr>"

text \<open>A document directory where \<open>a.pdf\<close> and \<open>a_7.pdf\<close> are taken.\<close>

definition crowdedWorld :: world where
  "crowdedWorld =
     \<lparr>files = [(str ''/c/1.pdf'', \<lparr>infoSize = 900, infoModificationTime = 40\<rparr>),
               (str ''/d/a.pdf'', \<lparr>infoSize = 1, infoModificationTime = 5\<rparr>),
               (str ''/d/a_7.pdf'', \<lparr>infoSize = 2, infoModificationTime = 6\<rparr>)],
      ticks = 0\<rparr>"

text \<open>
  \<open>someWorld\<close> after \<open>/c/1.pdf\<close> was committed as
  \<open>Invoice\<close>, and after \<open>/c/2.pdf\<close> was, too.
\<close>

definition afterFirst :: world where
  "afterFirst =
     \<lparr>files = [(str ''/c/2.pdf'', \<lparr>infoSize = 800, infoModificationTime = 41\<rparr>),
               (str ''/d/Invoice.pdf'', \<lparr>infoSize = 900, infoModificationTime = 50\<rparr>)],
      ticks = 0\<rparr>"

definition afterSecond :: world where
  "afterSecond =
     \<lparr>files = [(str ''/d/Invoice.pdf'', \<lparr>infoSize = 900, infoModificationTime = 50\<rparr>),
               (str ''/d/Invoice_1700.pdf'', \<lparr>infoSize = 800, infoModificationTime = 50\<rparr>)],
      ticks = 1\<rparr>"

section \<open>Strings and names\<close>

lemma str_pdf: "str ''.pdf'' = [0x2E, 0x70, 0x64, 0x66]"
  by (simp add: str_def)

lemma length_str: "length (str s) = length s"
  by (simp add: str_def)

lemma dropWhile_none: "\<forall>c\<in>set s. \<not> P c \<Longrightarrow> dropWhile P s = s"
  by (cases s) auto

lemma trim_no_white: "\<forall>c\<in>set s. \<not> isWhiteSpace c \<Longrightarrow> trim s = s"
  by (simp add: trim_def dropWhile_none)


lemma endsWith_iff: "endsWith s suf \<longleftrightarrow> (\<exists>p. s = p @ suf)"
proof
  assume "endsWith s suf"
  then have "s = take (length s - length suf) s @ suf"
    by (metis append_take_drop_id endsWith_def)
  then show "\<exists>p. s = p @ suf" ..
next
  assume "\<exists>p. s = p @ suf"
  then show "endsWith s suf" by (auto simp: endsWith_def)
qed

lemma endsWith_last: "endsWith s suf \<Longrightarrow> suf \<noteq> [] \<Longrightarrow> last s = last suf"
  by (auto simp: endsWith_iff)

lemma lower_pdf: "toLowerCase [0x2E, 0x70, 0x64, 0x66] = [0x2E, 0x70, 0x64, 0x66]"
  by (simp add: toLowerCase_def lowerUnit_def)

lemma hasPdfExt_append_pdf: "hasPdfExt (s @ str ''.pdf'')"
  using lower_pdf by (simp add: hasPdfExt_def endsWith_def toLowerCase_def str_pdf)

lemma hasPdfExt_replicate_a: "\<not> hasPdfExt (replicate n 0x61)"
proof
  assume h: "hasPdfExt (replicate n 0x61)"
  have low: "toLowerCase (replicate n 0x61) = replicate n 0x61"
    by (simp add: toLowerCase_def lowerUnit_def)
  from h have e: "endsWith (replicate n 0x61) [0x2E, 0x70, 0x64, 0x66]"
    by (simp add: hasPdfExt_def low str_pdf)
  then have "n \<noteq> 0" by (auto simp: endsWith_def)
  with endsWith_last [OF e] show False by simp
qed

subsection \<open>sanitizeFileName\<close>

lemma set_collapseUnderscores: "set (collapseUnderscores s) \<subseteq> set s"
  by (induction s rule: collapseUnderscores.induct) auto

lemma hd_collapseUnderscores:
  "collapseUnderscores (a # s) = a # tl (collapseUnderscores (a # s))"
  by (induction "a # s" arbitrary: a s rule: collapseUnderscores.induct) auto

lemma collapse_no_adjacent: "\<not> adjacentUnderscores (collapseUnderscores s)"
proof (induction s rule: collapseUnderscores.induct)
  case (1 a b s)
  obtain t where t: "collapseUnderscores (b # s) = b # t"
    using hd_collapseUnderscores by blast
  with 1 show ?case by (auto split: if_splits)
qed simp_all

lemma collapse_no_underscore: "0x5F \<notin> set s \<Longrightarrow> collapseUnderscores s = s"
  by (induction s rule: collapseUnderscores.induct) auto

lemma safe_not_white: "isSafeUnit c \<Longrightarrow> \<not> isWhiteSpace c"
  by (auto simp: isSafeUnit_def isWhiteSpace_def)

lemma adjacent_append_pdf:
  "adjacentUnderscores (s @ [0x2E, 0x70, 0x64, 0x66]) = adjacentUnderscores s"
  by (induction s rule: adjacentUnderscores.induct) auto

lemma safe_pdf: "list_all isSafeUnit (str ''.pdf'')"
  by (simp add: str_pdf isSafeUnit_def)

lemma safe_cleaned: "list_all isSafeUnit (cleaned s)"
proof -
  have "\<forall>c\<in>set (map (\<lambda>c. if \<not> isSafeUnit c then 0x5F else c) s). isSafeUnit c"
    by (auto simp: isSafeUnit_def)
  then show ?thesis
    using set_collapseUnderscores unfolding cleaned_def list_all_iff by blast
qed

lemma trim_cleaned: "trim (cleaned s) = cleaned s"
  using safe_cleaned [of s] by (intro trim_no_white) (auto simp: list_all_iff safe_not_white)

lemma sanitizeFileName_eq:
  "sanitizeFileName s = (if hasPdfExt (cleaned s) then cleaned s else cleaned s @ str ''.pdf'')"
  using trim_cleaned [of s] by (simp add: sanitizeFileName_def cleaned_def)

lemma sanitizeFileName_safe: "list_all isSafeUnit (sanitizeFileName s)"
  using safe_cleaned [of s] safe_pdf by (simp add: sanitizeFileName_eq)

lemma sanitizeFileName_hasPdfExt: "hasPdfExt (sanitizeFileName s)"
  by (simp add: sanitizeFileName_eq hasPdfExt_append_pdf)

lemma sanitizeFileName_no_adjacent: "\<not> adjacentUnderscores (sanitizeFileName s)"
  using collapse_no_adjacent
  by (simp add: sanitizeFileName_eq cleaned_def str_pdf adjacent_append_pdf)

lemma sanitizeFileName_empty: "sanitizeFileName [] = str ''.pdf''"
  by (simp add: sanitizeFileName_def trim_def hasPdfExt_def endsWith_def toLowerCase_def str_def)

lemma sanitizeFileName_replicate_a:
  "sanitizeFileName (replicate n 0x61) = replicate n 0x61 @ str ''.pdf''"
proof -
  have "cleaned (replicate n 0x61) = replicate n 0x61"
    by (simp add: cleaned_def isSafeUnit_def collapse_no_underscore)
  then show ?thesis by (simp add: sanitizeFileName_eq hasPdfExt_replicate_a)
qed

text \<open>
  C10. The sanitizer of the commit path returns only letters, digits, dot, underscore
  and hyphen, never two underscores in a row, and a name that ends with the extension:
  it is the input with every other code unit replaced by an underscore and the runs of
  underscores collapsed, followed by \<open>.pdf\<close> unless that is already its end. There is
  no cap on the length (n letters give n + 4 code units) and no default name: the empty
  string gives the bare extension.
\<close>

theorem sanitizeFileName_charset:
  "list_all isSafeUnit (sanitizeFileName s)
   \<and> \<not> adjacentUnderscores (sanitizeFileName s)
   \<and> hasPdfExt (sanitizeFileName s)
   \<and> sanitizeFileName s =
       (let t = collapseUnderscores (map (\<lambda>c. if \<not> isSafeUnit c then 0x5F else c) s)
        in if hasPdfExt t then t else t @ str ''.pdf'')
   \<and> sanitizeFileName [] = str ''.pdf''
   \<and> sanitizeFileName (replicate n 0x61) = replicate n 0x61 @ str ''.pdf''
   \<and> length (sanitizeFileName (replicate n 0x61)) = n + 4"
proof -
  have "length (sanitizeFileName (replicate n 0x61)) = n + 4"
    by (simp add: sanitizeFileName_replicate_a length_str)
  moreover have "sanitizeFileName s =
       (let t = collapseUnderscores (map (\<lambda>c. if \<not> isSafeUnit c then 0x5F else c) s)
        in if hasPdfExt t then t else t @ str ''.pdf'')"
    using sanitizeFileName_eq [of s] by (simp add: cleaned_def)
  ultimately show ?thesis
    using sanitizeFileName_safe sanitizeFileName_no_adjacent sanitizeFileName_hasPdfExt
      sanitizeFileName_empty sanitizeFileName_replicate_a
    by blast
qed

subsection \<open>sanitizePdfName\<close>




lemma sanitizePdfName_eq:
  "sanitizePdfName now k raw =
     (if pdfNameCandidate raw = str ''.pdf'' \<or> trim (pdfNameCandidate raw) = []
      then generateDefaultPdfName now k else pdfNameCandidate raw)"
  by (simp add: sanitizePdfName_def pdfNameCandidate_def Let_def)

lemma dropWhile_all: "\<forall>c\<in>set s. P c \<Longrightarrow> dropWhile P s = []"
  by (induction s) auto

lemma trim_all_white: "\<forall>c\<in>set s. isWhiteSpace c \<Longrightarrow> trim s = []"
  by (simp add: trim_def dropWhile_all)

lemma pdfNameCandidate_blank:
  assumes "\<forall>c\<in>set raw. isWhiteSpace c \<and> \<not> isInvalidUnit c"
  shows "pdfNameCandidate raw = str ''.pdf''"
proof -
  have m: "map (\<lambda>c. if isInvalidUnit c then 0x5F else c) raw = raw"
    using assms by (induction raw) auto
  have t: "trim raw = []" using assms by (simp add: trim_all_white)
  show ?thesis
    unfolding pdfNameCandidate_def Let_def m t
    by (simp add: stripDots_def toLowerCase_def endsWith_def length_str)
qed

lemma default_head: "generateDefaultPdfName now k = 0x44 # tl (generateDefaultPdfName now k)"
  by (simp add: generateDefaultPdfName_def Let_def str_def)

lemma trim_default: "trim (generateDefaultPdfName now k) \<noteq> []"
proof -
  let ?d = "generateDefaultPdfName now k"
  obtain t where t: "?d = t @ str ''images.pdf''"
    by (simp add: generateDefaultPdfName_def Let_def)
  have "\<not> isWhiteSpace 0x44" by (simp add: isWhiteSpace_def)
  then have "dropWhile isWhiteSpace ?d = ?d"
    by (subst (1 2) default_head) simp
  moreover have "rev ?d = 0x66 # tl (rev ?d)"
    by (simp add: t str_def)
  moreover have "\<not> isWhiteSpace 0x66" by (simp add: isWhiteSpace_def)
  ultimately have "dropWhile isWhiteSpace (rev (dropWhile isWhiteSpace ?d)) \<noteq> []"
    by (metis dropWhile.simps(2) list.distinct(1))
  then show ?thesis by (simp add: trim_def)
qed

lemma default_form:
  "generateDefaultPdfName now k =
     str ''Document-''
     @ (String_of_nat (getFullYear now) @ str ''-''
        @ padStart (String_of_nat (getMonth now + 1)) 2 0x30 @ str ''-''
        @ padStart (String_of_nat (getDate now)) 2 0x30 @ str ''-''
        @ padStart (String_of_nat (getHours now)) 2 0x30
        @ padStart (String_of_nat (getMinutes now)) 2 0x30
        @ padStart (String_of_nat (getSeconds now)) 2 0x30)
     @ str ''-'' @ String_of_nat k @ str ''images.pdf''"
  by (simp add: generateDefaultPdfName_def Let_def)

lemma default_someDate:
  "generateDefaultPdfName someDate 3 = str ''Document-2024-01-05-030409-3images.pdf''"
  by (simp add: generateDefaultPdfName_def someDate_def padStart_def String_of_nat.simps
      digitUnit_def str_def)

lemma sanitizePdfName_blank:
  "\<forall>c\<in>set raw. isWhiteSpace c \<and> \<not> isInvalidUnit c \<Longrightarrow>
   sanitizePdfName now k raw = generateDefaultPdfName now k"
  by (simp add: sanitizePdfName_eq pdfNameCandidate_blank)

lemma sanitizePdfName_not_blank: "trim (sanitizePdfName now k raw) \<noteq> []"
  by (simp add: sanitizePdfName_eq trim_default)


section \<open>The document store: resolution, listing, deletion\<close>

lemma weight_append: "weight (a @ b) = weight a + weight b"
  by (simp add: weight_def)

lemma weight_le_length: "weight s \<le> length s"
  by (simp add: weight_def)

lemma not_word_underscore: "\<not> isWordUnit 0x5F"
  by (simp add: isWordUnit_def)

lemma not_safe_not_word: "\<not> isSafeUnit c \<Longrightarrow> \<not> isWordUnit c"
  by (simp add: isWordUnit_def)

lemma weight_replace: "weight (map (\<lambda>c. if \<not> isSafeUnit c then 0x5F else c) s) = weight s"
  unfolding weight_def
  by (induction s) (simp_all add: not_word_underscore not_safe_not_word)

lemma weight_collapse: "weight (collapseUnderscores s) = weight s"
  unfolding weight_def
  by (induction s rule: collapseUnderscores.induct) (simp_all add: not_word_underscore)

lemma weight_cleaned: "weight (cleaned s) = weight s"
  by (simp add: cleaned_def weight_collapse weight_replace)

lemma weight_pdf: "weight (str ''.pdf'') = 4"
  by (simp add: weight_def str_pdf isWordUnit_def isSafeUnit_def)

lemma weight_sanitizeFileName: "weight s \<le> weight (sanitizeFileName s)"
  by (simp add: sanitizeFileName_eq weight_append weight_cleaned)

lemma weight_removePdfExt: "weight c \<le> weight (removePdfExt c) + 4"
proof (cases "hasPdfExt c")
  case True
  then have l: "4 \<le> length c" by (simp add: hasPdfExt_def endsWith_def length_str toLowerCase_def)
  have "weight c = weight (take (length c - 4) c) + weight (drop (length c - 4) c)"
    by (metis append_take_drop_id weight_append)
  moreover have "weight (drop (length c - 4) c) \<le> 4"
    using weight_le_length [of "drop (length c - 4) c"] l by simp
  ultimately show ?thesis using True by (simp add: removePdfExt_def)
next
  case False
  then show ?thesis by (simp add: removePdfExt_def)
qed

lemma digit_word: "j < 10 \<Longrightarrow> isWordUnit (digitUnit j)"
proof -
  assume j: "j < 10"
  have "unat (of_nat (48 + j) :: unit16) = (48 + j) mod 2 ^ LENGTH(16)"
    by (rule unat_of_nat)
  with j have u: "unat (digitUnit j) = 48 + j"
    by (simp add: digitUnit_def)
  have "digitUnit j \<noteq> 0x5F"
  proof
    assume "digitUnit j = 0x5F"
    then have "unat (digitUnit j) = unat (0x5F :: unit16)" by simp
    with u j show False by simp
  qed
  with u j show ?thesis by (simp add: isWordUnit_def isSafeUnit_def)
qed

lemma weight_String_of_nat: "1 \<le> weight (String_of_nat n)"
proof (cases "n < 10")
  case True
  then show ?thesis by (subst String_of_nat.simps) (simp add: weight_def digit_word)
next
  case False
  have "n mod 10 < 10" by simp
  then have "isWordUnit (digitUnit (n mod 10))" by (rule digit_word)
  with False show ?thesis by (subst String_of_nat.simps) (simp add: weight_append weight_def)
qed

lemma weight_nextName: "weight c < weight (sanitizeFileName (nextName pf t c))"
proof -
  have "weight c + 1 \<le> weight (nextName pf t c)"
    using weight_removePdfExt [of c] weight_String_of_nat [of "clock pf t"]
    by (simp add: nextName_def weight_append weight_pdf)
  with weight_sanitizeFileName [of "nextName pf t c"] show ?thesis by simp
qed

lemma length_filter_le:
  "(\<And>x. x \<in> set xs \<Longrightarrow> Q x \<Longrightarrow> P x) \<Longrightarrow> length (filter Q xs) \<le> length (filter P xs)"
proof (induction xs)
  case Nil
  then show ?case by simp
next
  case (Cons x xs)
  then have "length (filter Q xs) \<le> length (filter P xs)" by simp
  moreover have "Q x \<Longrightarrow> P x" using Cons.prems by simp
  ultimately show ?case by auto
qed

lemma length_filter_less:
  assumes "\<And>x. x \<in> set xs \<Longrightarrow> Q x \<Longrightarrow> P x" "y \<in> set xs" "P y" "\<not> Q y"
  shows "length (filter Q xs) < length (filter P xs)"
  using assms
proof (induction xs)
  case Nil
  then show ?case by simp
next
  case (Cons x xs)
  have le: "length (filter Q xs) \<le> length (filter P xs)"
    using Cons.prems(1) by (intro length_filter_le) simp
  show ?case
  proof (cases "y = x")
    case True
    with Cons.prems(3,4) le show ?thesis by simp
  next
    case False
    with Cons.prems have "y \<in> set xs" by simp
    then have "length (filter Q xs) < length (filter P xs)"
      using Cons.IH Cons.prems by simp
    moreover have "Q x \<Longrightarrow> P x" using Cons.prems(1) by simp
    ultimately show ?thesis by auto
  qed
qed

lemma renamePdf_no_directory:
  "documentDirectory pf = None \<Longrightarrow>
   renamePdf pf w src raw
     = Some (Inl (renameFailure (Error ''Cannot access document directory'')), w)"
  by (subst renamePdf.simps) simp

lemma renamePdf_source_rejects:
  "documentDirectory pf = Some d \<Longrightarrow> getInfoAsync pf w src = Inl e \<Longrightarrow>
   renamePdf pf w src raw = Some (Inl (renameFailure e), w)"
  by (subst renamePdf.simps) simp

lemma renamePdf_source_missing:
  "documentDirectory pf = Some d \<Longrightarrow> getInfoAsync pf w src = Inr None \<Longrightarrow>
   renamePdf pf w src raw
     = Some (Inl (renameFailure (Error ''Source PDF file not found'')), w)"
  by (subst renamePdf.simps) simp

lemma renamePdf_target_rejects:
  "documentDirectory pf = Some d \<Longrightarrow> getInfoAsync pf w src = Inr (Some f) \<Longrightarrow>
   getInfoAsync pf w (d @ sanitizeFileName raw) = Inl e \<Longrightarrow>
   renamePdf pf w src raw = Some (Inl (renameFailure e), w)"
  by (subst renamePdf.simps) (simp add: Let_def)

lemma renamePdf_target_free:
  "documentDirectory pf = Some d \<Longrightarrow> getInfoAsync pf w src = Inr (Some f) \<Longrightarrow>
   getInfoAsync pf w (d @ sanitizeFileName raw) = Inr None \<Longrightarrow>
   renamePdf pf w src raw = Some (copyToTarget pf w src (d @ sanitizeFileName raw))"
  by (subst renamePdf.simps) (simp add: Let_def)

lemma renamePdf_target_taken:
  assumes "documentDirectory pf = Some d" "getInfoAsync pf w src = Inr (Some f)"
    "getInfoAsync pf w (d @ sanitizeFileName raw) = Inr (Some g)"
  shows "renamePdf pf w src raw
     = map_option rethrow
         (renamePdf pf (w\<lparr>ticks := Suc (ticks w)\<rparr>) src
            (nextName pf (ticks w) (sanitizeFileName raw)))"
proof -
  let ?inner = "renamePdf pf (w\<lparr>ticks := Suc (ticks w)\<rparr>) src
                  (nextName pf (ticks w) (sanitizeFileName raw))"
  have "renamePdf pf w src raw
        = Option.bind ?inner
            (\<lambda>(r, w2). Some (case r of Inl e \<Rightarrow> Inl (renameFailure e) | Inr u \<Rightarrow> Inr u, w2))"
    by (subst renamePdf.simps) (simp add: assms Let_def Date_now_def nextName_def)
  also have "\<dots> = map_option rethrow ?inner"
    by (cases ?inner) (auto simp: rethrow_def)
  finally show ?thesis .
qed

lemma getInfoAsync_SomeD: "getInfoAsync pf w p = Inr r \<Longrightarrow> map_of (files w) p = r"
  by (simp add: getInfoAsync_def split: option.splits)

lemma getInfoAsync_ticks [simp]: "getInfoAsync pf (w\<lparr>ticks := t\<rparr>) p = getInfoAsync pf w p"
  by (simp add: getInfoAsync_def split: option.splits)

lemma heavier_le: "heavier d w raw \<le> length (files w)"
  by (simp add: heavier_def)

lemma heavier_decreases:
  assumes "map_of (files w) (d @ sanitizeFileName raw) = Some g"
  shows "heavier d (w\<lparr>ticks := t'\<rparr>) (nextName pf t (sanitizeFileName raw)) < heavier d w raw"
proof -
  let ?c = "sanitizeFileName raw"
  let ?n = "sanitizeFileName (nextName pf t ?c)"
  have lt: "weight (d @ ?c) < weight (d @ ?n)"
    using weight_nextName [of ?c pf t] by (simp add: weight_append)
  have mem: "(d @ ?c, g) \<in> set (files w)" using assms by (rule map_of_SomeD)
  have "length (filter (\<lambda>(p, f). weight (d @ ?n) \<le> weight p) (files w))
        < length (filter (\<lambda>(p, f). weight (d @ ?c) \<le> weight p) (files w))"
  proof (rule length_filter_less [OF _ mem])
    fix x assume "x \<in> set (files w)" "case x of (p, f) \<Rightarrow> weight (d @ ?n) \<le> weight p"
    with lt show "case x of (p, f) \<Rightarrow> weight (d @ ?c) \<le> weight p" by (cases x) simp
  next
    show "case (d @ ?c, g) of (p, f) \<Rightarrow> weight (d @ ?c) \<le> weight p" by simp
  next
    from lt show "\<not> (case (d @ ?c, g) of (p, f) \<Rightarrow> weight (d @ ?n) \<le> weight p)" by simp
  qed
  then show ?thesis by (simp add: heavier_def)
qed

lemma copyToTarget_ticks: "ticks (snd (copyToTarget pf w src t)) = ticks w"
  by (simp add: copyToTarget_def copyAsync_def deleteAsync_def
      split: option.splits copyOutcome.splits prod.splits sum.splits)

lemma renamePdf_returns_aux:
  "documentDirectory pf = Some d \<Longrightarrow>
   \<exists>r w'. renamePdf pf w src raw = Some (r, w') \<and> ticks w \<le> ticks w'
           \<and> ticks w' \<le> ticks w + heavier d w raw"
proof (induction "heavier d w raw" arbitrary: w raw rule: less_induct)
  case less
  note d = less.prems
  show ?case
  proof (cases "getInfoAsync pf w src")
    case (Inl e)
    with d show ?thesis by (simp add: renamePdf_source_rejects)
  next
    case (Inr si)
    show ?thesis
    proof (cases si)
      case None
      with Inr d show ?thesis by (simp add: renamePdf_source_missing)
    next
      case (Some f)
      note src = Inr [unfolded Some]
      show ?thesis
      proof (cases "getInfoAsync pf w (d @ sanitizeFileName raw)")
        case (Inl e)
        with d src show ?thesis by (simp add: renamePdf_target_rejects)
      next
        case (Inr ti)
        show ?thesis
        proof (cases ti)
          case None
          obtain r w' where c: "copyToTarget pf w src (d @ sanitizeFileName raw) = (r, w')"
            by (cases "copyToTarget pf w src (d @ sanitizeFileName raw)")
          with copyToTarget_ticks [of pf w src "d @ sanitizeFileName raw"]
          have "ticks w' = ticks w" by simp
          with c d src Inr None show ?thesis by (simp add: renamePdf_target_free)
        next
          case (Some g)
          note tgt = Inr [unfolded Some]
          let ?w1 = "w\<lparr>ticks := Suc (ticks w)\<rparr>"
          let ?n = "nextName pf (ticks w) (sanitizeFileName raw)"
          have dec: "heavier d ?w1 ?n < heavier d w raw"
            using getInfoAsync_SomeD [OF tgt] by (rule heavier_decreases)
          from less.hyps [OF dec d] obtain r w' where
            r: "renamePdf pf ?w1 src ?n = Some (r, w')" and
            t: "ticks ?w1 \<le> ticks w'" "ticks w' \<le> ticks ?w1 + heavier d ?w1 ?n"
            by blast
          have "renamePdf pf w src raw = Some (rethrow (r, w'))"
            using renamePdf_target_taken [OF d src tgt] r by simp
          moreover have "snd (rethrow (r, w')) = w'" by (simp add: rethrow_def)
          ultimately show ?thesis using t dec
            by (cases "rethrow (r, w')") auto
        qed
      qed
    qed
  qed
qed

lemma candidateName_shift:
  "candidateName pf (Suc t) (nextName pf t (sanitizeFileName raw)) i
     = candidateName pf t raw (Suc i)"
  by (induction i) simp_all

lemma rethrow_Inr: "(rethrow ^^ k) (Inr u, w) = (Inr u, w)"
  by (induction k) (simp_all add: rethrow_def)

lemma rethrow_Inl: "(rethrow ^^ k) (Inl e, w) = (Inl ((renameFailure ^^ k) e), w)"
  by (induction k) (simp_all add: rethrow_def)

lemma rethrow_InrD: "rethrow x = (Inr u, w') \<Longrightarrow> x = (Inr u, w')"
  by (cases x) (auto simp: rethrow_def split: sum.splits)

lemma getInfoAsync_plain:
  "getInfoRejects pf p = None \<Longrightarrow> getInfoAsync pf w p = Inr (map_of (files w) p)"
  by (simp add: getInfoAsync_def)

lemma copyToTarget_succeeds:
  "map_of (files w) src = Some f \<Longrightarrow> copyOutcomeOf pf src t = CopySucceeds m \<Longrightarrow>
   copyToTarget pf w src t
     = (Inr t, w\<lparr>files := (if deleteRejects pf src = None then AList.delete src else id)
                             (AList.update t (f\<lparr>infoModificationTime := m\<rparr>) (files w))\<rparr>)"
  by (simp add: copyToTarget_def copyAsync_def deleteAsync_def split: option.splits)

lemma copyToTarget_rejects:
  "map_of (files w) src = Some f \<Longrightarrow> copyOutcomeOf pf src t = CopyRejects m partial \<Longrightarrow>
   copyToTarget pf w src t
     = (Inl (renameFailure (Error m)),
        case partial of None \<Rightarrow> w | Some p \<Rightarrow> w\<lparr>files := AList.update t p (files w)\<rparr>)"
  by (simp add: copyToTarget_def copyAsync_def)

lemma copyToTarget_InrD: "copyToTarget pf w src t = (Inr u, w') \<Longrightarrow> u = t"
  by (auto simp: copyToTarget_def split: prod.splits sum.splits)

lemma renamePdf_resolves:
  assumes d: "documentDirectory pf = Some d"
    and nr: "\<forall>p. getInfoRejects pf p = None"
    and src: "map_of (files w) src = Some f"
  shows "\<exists>k. k \<le> heavier d w raw
           \<and> (\<forall>i<k. map_of (files w) (d @ candidateName pf (ticks w) raw i) \<noteq> None)
           \<and> map_of (files w) (d @ candidateName pf (ticks w) raw k) = None
           \<and> renamePdf pf w src raw
               = Some ((rethrow ^^ k)
                         (copyToTarget pf (w\<lparr>ticks := ticks w + k\<rparr>) src
                            (d @ candidateName pf (ticks w) raw k)))"
  using src
proof (induction "heavier d w raw" arbitrary: w raw rule: less_induct)
  case less
  note src = less.prems
  have gi: "getInfoAsync pf w p = Inr (map_of (files w) p)" for p
    using nr by (simp add: getInfoAsync_plain)
  show ?case
  proof (cases "map_of (files w) (d @ sanitizeFileName raw)")
    case None
    have "renamePdf pf w src raw = Some (copyToTarget pf w src (d @ sanitizeFileName raw))"
      using d gi src None by (intro renamePdf_target_free) simp_all
    with None show ?thesis by (intro exI [of _ 0]) simp
  next
    case (Some g)
    let ?w1 = "w\<lparr>ticks := Suc (ticks w)\<rparr>"
    let ?n = "nextName pf (ticks w) (sanitizeFileName raw)"
    have dec: "heavier d ?w1 ?n < heavier d w raw"
      using Some by (rule heavier_decreases)
    have src1: "map_of (files ?w1) src = Some f" using src by simp
    from less.hyps [OF dec src1] obtain k where
      k: "k \<le> heavier d ?w1 ?n"
      and taken: "\<forall>i<k. map_of (files w) (d @ candidateName pf (ticks w) raw (Suc i)) \<noteq> None"
      and free: "map_of (files w) (d @ candidateName pf (ticks w) raw (Suc k)) = None"
      and r: "renamePdf pf ?w1 src ?n
               = Some ((rethrow ^^ k)
                         (copyToTarget pf (w\<lparr>ticks := ticks w + Suc k\<rparr>) src
                            (d @ candidateName pf (ticks w) raw (Suc k))))"
      by (auto simp: candidateName_shift)
    have "renamePdf pf w src raw = map_option rethrow (renamePdf pf ?w1 src ?n)"
      using d gi src Some by (intro renamePdf_target_taken) simp_all
    with r have res: "renamePdf pf w src raw
               = Some ((rethrow ^^ Suc k)
                         (copyToTarget pf (w\<lparr>ticks := ticks w + Suc k\<rparr>) src
                            (d @ candidateName pf (ticks w) raw (Suc k))))"
      by simp
    have all: "\<forall>i<Suc k. map_of (files w) (d @ candidateName pf (ticks w) raw i) \<noteq> None"
    proof (intro allI impI)
      fix i assume "i < Suc k"
      then show "map_of (files w) (d @ candidateName pf (ticks w) raw i) \<noteq> None"
        using taken Some by (cases i) simp_all
    qed
    from k dec have "Suc k \<le> heavier d w raw" by simp
    with all free res show ?thesis by blast
  qed
qed

lemma renamePdf_success_free:
  "renamePdf pf w src raw = Some (Inr u, w') \<Longrightarrow> map_of (files w) u = None"
proof (cases "documentDirectory pf")
  case None
  assume "renamePdf pf w src raw = Some (Inr u, w')"
  with None show ?thesis by (simp add: renamePdf_no_directory)
next
  case (Some d)
  assume "renamePdf pf w src raw = Some (Inr u, w')"
  then show ?thesis
  proof (induction "heavier d w raw" arbitrary: w raw rule: less_induct)
    case less
    note res = less.prems
    show ?case
    proof (cases "getInfoAsync pf w src")
      case (Inl e)
      with Some res show ?thesis by (simp add: renamePdf_source_rejects)
    next
      case (Inr si)
      show ?thesis
      proof (cases si)
        case None
        with Inr Some res show ?thesis by (simp add: renamePdf_source_missing)
      next
        case (Some f)
        note src = Inr [unfolded Some]
        show ?thesis
        proof (cases "getInfoAsync pf w (d @ sanitizeFileName raw)")
          case (Inl e)
          with \<open>documentDirectory pf = Some d\<close> src res show ?thesis
            by (simp add: renamePdf_target_rejects)
        next
          case (Inr ti)
          show ?thesis
          proof (cases ti)
            case None
            with \<open>documentDirectory pf = Some d\<close> src res Inr
            have "copyToTarget pf w src (d @ sanitizeFileName raw) = (Inr u, w')"
              by (simp add: renamePdf_target_free)
            then have "u = d @ sanitizeFileName raw" by (rule copyToTarget_InrD)
            with getInfoAsync_SomeD [OF Inr] None show ?thesis by simp
          next
            case (Some g)
            note tgt = Inr [unfolded Some]
            let ?w1 = "w\<lparr>ticks := Suc (ticks w)\<rparr>"
            let ?n = "nextName pf (ticks w) (sanitizeFileName raw)"
            have dec: "heavier d ?w1 ?n < heavier d w raw"
              using getInfoAsync_SomeD [OF tgt] by (rule heavier_decreases)
            from renamePdf_target_taken [OF \<open>documentDirectory pf = Some d\<close> src tgt] res
            have "map_option rethrow (renamePdf pf ?w1 src ?n) = Some (Inr u, w')" by simp
            then obtain x where x: "renamePdf pf ?w1 src ?n = Some x" "rethrow x = (Inr u, w')"
              by (cases "renamePdf pf ?w1 src ?n") simp_all
            from rethrow_InrD [OF x(2)] x(1)
            have "renamePdf pf ?w1 src ?n = Some (Inr u, w')" by simp
            from less.hyps [OF dec this] show ?thesis by simp
          qed
        qed
      qed
    qed
  qed
qed

lemma listAllPdfs_eq:
  "documentDirectory pf = Some d \<Longrightarrow> readDirectoryAsync pf w d = Inr names \<Longrightarrow>
   listAllPdfs pf w = Array_sort newestFirst (validPdfsOf pf w d names)"
proof -
  have "(\<lambda>a b. int (modificationTime b) - int (modificationTime a)) = newestFirst"
    by (intro ext) (simp add: newestFirst_def)
  then show "documentDirectory pf = Some d \<Longrightarrow> readDirectoryAsync pf w d = Inr names \<Longrightarrow>
   listAllPdfs pf w = Array_sort newestFirst (validPdfsOf pf w d names)"
    by (simp add: listAllPdfs_def validPdfsOf_def Let_def)
qed

lemma insertBy_newestFirst:
  "insertBy newestFirst x ys = insort_key (\<lambda>e. - int (modificationTime e)) x ys"
  by (induction ys) (simp_all add: newestFirst_def)

lemma Array_sort_newestFirst:
  "Array_sort newestFirst xs = sort_key (\<lambda>e. - int (modificationTime e)) xs"
proof -
  have "insertBy newestFirst = insort_key (\<lambda>e. - int (modificationTime e))"
    by (intro ext) (rule insertBy_newestFirst)
  then show ?thesis by (simp add: Array_sort_def sort_key_def)
qed

lemma Array_sort_sorted:
  "sorted_wrt (\<lambda>a b. modificationTime b \<le> modificationTime a) (Array_sort newestFirst xs)"
proof -
  have "sorted (map (\<lambda>e. - int (modificationTime e)) (Array_sort newestFirst xs))"
    by (simp add: Array_sort_newestFirst)
  then show ?thesis by (simp add: sorted_map)
qed

lemma Array_sort_stable:
  "filter (\<lambda>e. modificationTime e = t) (Array_sort newestFirst xs)
     = filter (\<lambda>e. modificationTime e = t) xs"
proof -
  have "filter (\<lambda>e. - int (modificationTime e) = - int t)
          (sort_key (\<lambda>e. - int (modificationTime e)) xs)
        = filter (\<lambda>e. - int (modificationTime e) = - int t) xs"
    by (rule sort_key_stable)
  then show ?thesis by (simp add: Array_sort_newestFirst)
qed

lemma Array_sort_set: "set (Array_sort newestFirst xs) = set xs"
  by (simp add: Array_sort_newestFirst)

lemma Array_sort_length: "length (Array_sort newestFirst xs) = length xs"
  by (simp add: Array_sort_newestFirst)

lemma listAllPdfs_sorted:
  "sorted_wrt (\<lambda>a b. modificationTime b \<le> modificationTime a) (listAllPdfs pf w)"
proof (cases "documentDirectory pf")
  case None
  then show ?thesis by (simp add: listAllPdfs_def)
next
  case (Some d)
  show ?thesis
  proof (cases "readDirectoryAsync pf w d")
    case (Inl e)
    with Some show ?thesis by (simp add: listAllPdfs_def)
  next
    case (Inr names)
    with Some show ?thesis by (simp add: listAllPdfs_eq Array_sort_sorted)
  qed
qed

lemma three_sorted:
  assumes s: "sorted_wrt (\<lambda>a b. modificationTime b \<le> modificationTime a) ys"
    and l: "length ys = 3" and e: "set ys = {e1, e2, e3}"
    and t: "modificationTime e1 < modificationTime e2" "modificationTime e2 < modificationTime e3"
  shows "ys = [e3, e2, e1]"
proof -
  from l obtain a b c where ys: "ys = [a, b, c]"
    by (auto simp: length_Suc_conv numeral_3_eq_3)
  from s ys have o: "modificationTime b \<le> modificationTime a" "modificationTime c \<le> modificationTime b"
    by auto
  from e ys have m: "a \<in> {e1, e2, e3}" "b \<in> {e1, e2, e3}" "c \<in> {e1, e2, e3}"
    "e1 \<in> {a, b, c}" "e2 \<in> {a, b, c}" "e3 \<in> {a, b, c}"
    by auto
  have "a = e3"
    using m o t by (metis insertE leD le_less_trans less_imp_le singletonD)
  moreover have "c = e1"
    using m o t by (metis insertE leD le_less_trans less_imp_le singletonD)
  moreover have "b = e2"
    using m o t calculation by (metis insertE leD singletonD less_irrefl)
  ultimately show ?thesis using ys by simp
qed

lemma update_absent: "map_of al k = None \<Longrightarrow> AList.update k v al = al @ [(k, v)]"
  by (induction al) (auto split: if_splits)

lemma sanitizeFileName_no_slash: "0x2F \<notin> set (sanitizeFileName s)"
proof
  assume "0x2F \<in> set (sanitizeFileName s)"
  with sanitizeFileName_safe [of s] have "isSafeUnit 0x2F" by (simp add: list_all_iff)
  then show False by (simp add: isSafeUnit_def)
qed

lemma sanitizeFileName_nonempty: "sanitizeFileName s \<noteq> []"
  using sanitizeFileName_hasPdfExt [of s]
  by (auto simp: hasPdfExt_def endsWith_def length_str toLowerCase_def)

lemma map_filter_id_mem: "Some x \<in> set xs \<Longrightarrow> x \<in> set (List.map_filter id xs)"
  by (induction xs) (auto split: option.splits)

lemma candidateName_sanitized: "\<exists>s. candidateName pf t raw k = sanitizeFileName s"
  by (cases k) auto

lemma listed:
  assumes d: "documentDirectory pf = Some d" and rd: "readDirectoryRejects pf = None"
    and gi: "getInfoRejects pf (d @ sanitizeFileName s) = None"
    and f: "map_of (files w) (d @ sanitizeFileName s) = Some f"
  shows "\<lparr>name = sanitizeFileName s, uri = d @ sanitizeFileName s, rawSize = infoSize f,
          modificationTime = infoModificationTime f\<rparr> \<in> set (listAllPdfs pf w)"
proof -
  let ?n = "sanitizeFileName s"
  let ?names = "map (\<lambda>(p, f). drop (length d) p) (filter (\<lambda>(p, f). isChildOf d p) (files w))"
  have r: "readDirectoryAsync pf w d = Inr ?names"
    using rd by (simp add: readDirectoryAsync_def)
  have mem: "(d @ ?n, f) \<in> set (files w)" using f by (rule map_of_SomeD)
  have child: "isChildOf d (d @ ?n)"
    using sanitizeFileName_no_slash [of s] sanitizeFileName_nonempty [of s]
    by (simp add: isChildOf_def)
  from mem child have "drop (length d) (d @ ?n) \<in> set ?names"
    by (force simp del: drop_append)
  then have n: "?n \<in> set ?names" by simp
  have e: "endsWith (toLowerCase ?n) (str ''.pdf'')"
    using sanitizeFileName_hasPdfExt [of s] by (simp add: hasPdfExt_def)
  have g: "getInfoAsync pf w (d @ ?n) = Inr (Some f)"
    using gi f by (simp add: getInfoAsync_def)
  have "Some \<lparr>name = ?n, uri = d @ ?n, rawSize = infoSize f,
          modificationTime = infoModificationTime f\<rparr>
        \<in> set (map (\<lambda>file.
               let fileUri = d @ file in
               case getInfoAsync pf w fileUri of
                 Inl e \<Rightarrow> None
               | Inr None \<Rightarrow> None
               | Inr (Some fileInfo) \<Rightarrow>
                   Some \<lparr>name = file, uri = fileUri, rawSize = infoSize fileInfo,
                         modificationTime = infoModificationTime fileInfo\<rparr>)
          (filter (\<lambda>file. endsWith (toLowerCase file) (str ''.pdf'')) ?names))"
    using n e g by (force simp: Let_def image_iff)
  then have "\<lparr>name = ?n, uri = d @ ?n, rawSize = infoSize f,
          modificationTime = infoModificationTime f\<rparr> \<in> set (validPdfsOf pf w d ?names)"
    unfolding validPdfsOf_def by (rule map_filter_id_mem)
  then show ?thesis
    using listAllPdfs_eq [OF d r] by (simp add: Array_sort_set)
qed

section \<open>The claims about the document store\<close>

lemmas eval_defs = str_def docs_def somePlatform_def listAllPdfs_def readDirectoryAsync_def
  isChildOf_def getInfoAsync_def endsWith_def toLowerCase_def lowerUnit_def Array_sort_def
  Let_def

lemma tie_eval: "listAllPdfs somePlatform tieWorld =
   [\<lparr>name = str ''b.pdf'', uri = str ''/d/b.pdf'', rawSize = 1, modificationTime = 5\<rparr>,
    \<lparr>name = str ''a.pdf'', uri = str ''/d/a.pdf'', rawSize = 2, modificationTime = 5\<rparr>]"
  by (simp add: eval_defs tieWorld_def)

lemma three_eval: "listAllPdfs somePlatform threeWorld =
   [\<lparr>name = str ''y.PDF'', uri = str ''/d/y.PDF'', rawSize = 2, modificationTime = 30\<rparr>,
    \<lparr>name = str ''x.pdf'', uri = str ''/d/x.pdf'', rawSize = 1, modificationTime = 20\<rparr>,
    \<lparr>name = str ''z.pdf'', uri = str ''/d/z.pdf'', rawSize = 3, modificationTime = 10\<rparr>]"
  by (simp add: eval_defs threeWorld_def)

lemma ord: "\<not> (str ''b.pdf'' \<le> str ''a.pdf'')"
  by (simp add: str_def)

text \<open>
  C3, as the claim states it, fails: two documents with the same modification time
  come back in the order of the directory, here \<open>b.pdf\<close> before \<open>a.pdf\<close>, not by
  name. The comparator looks at the modification times only.
\<close>

theorem listAllPdfs_ties_counterexample:
  "map name (listAllPdfs somePlatform tieWorld) = [str ''b.pdf'', str ''a.pdf'']
   \<and> map modificationTime (listAllPdfs somePlatform tieWorld) = [5, 5]
   \<and> \<not> (str ''b.pdf'' \<le> str ''a.pdf'')"
  by (simp add: tie_eval) (simp add: str_def)

text \<open>
  C3, amended. \<open>listAllPdfs\<close> returns the documents newest first: no entry has a
  later modification time than an entry before it. Entries with the same modification
  time keep the order in which the directory enumerates them. Three documents with
  modification times t1 < t2 < t3 come back in the order t3, t2, t1, whatever the
  order of the directory.
\<close>

theorem listAllPdfs_newest_first:
  "sorted_wrt (\<lambda>a b. modificationTime b \<le> modificationTime a) (listAllPdfs pf w)
   \<and> (documentDirectory pf = Some d \<and> readDirectoryAsync pf w d = Inr names \<longrightarrow>
        filter (\<lambda>e. modificationTime e = t) (listAllPdfs pf w)
          = filter (\<lambda>e. modificationTime e = t) (validPdfsOf pf w d names)
        \<and> (set (validPdfsOf pf w d names) = {e1, e2, e3}
             \<and> length (validPdfsOf pf w d names) = 3
             \<and> modificationTime e1 < modificationTime e2
             \<and> modificationTime e2 < modificationTime e3
           \<longrightarrow> listAllPdfs pf w = [e3, e2, e1]))"
proof (intro conjI impI)
  show "sorted_wrt (\<lambda>a b. modificationTime b \<le> modificationTime a) (listAllPdfs pf w)"
    by (rule listAllPdfs_sorted)
next
  assume a: "documentDirectory pf = Some d \<and> readDirectoryAsync pf w d = Inr names"
  then show "filter (\<lambda>e. modificationTime e = t) (listAllPdfs pf w)
          = filter (\<lambda>e. modificationTime e = t) (validPdfsOf pf w d names)"
    by (simp add: listAllPdfs_eq Array_sort_stable)
next
  assume a: "documentDirectory pf = Some d \<and> readDirectoryAsync pf w d = Inr names"
    and b: "set (validPdfsOf pf w d names) = {e1, e2, e3}
             \<and> length (validPdfsOf pf w d names) = 3
             \<and> modificationTime e1 < modificationTime e2
             \<and> modificationTime e2 < modificationTime e3"
  from a have eq: "listAllPdfs pf w = Array_sort newestFirst (validPdfsOf pf w d names)"
    by (simp add: listAllPdfs_eq)
  show "listAllPdfs pf w = [e3, e2, e1]"
  proof (rule three_sorted)
    show "sorted_wrt (\<lambda>a b. modificationTime b \<le> modificationTime a) (listAllPdfs pf w)"
      by (rule listAllPdfs_sorted)
    show "length (listAllPdfs pf w) = 3" using b by (simp add: eq Array_sort_length)
    show "set (listAllPdfs pf w) = {e1, e2, e3}" using b by (simp add: eq Array_sort_set)
    show "modificationTime e1 < modificationTime e2" using b by simp
    show "modificationTime e2 < modificationTime e3" using b by simp
  qed
qed

lemma three_names:
  "readDirectoryAsync somePlatform threeWorld docs
     = Inr [str ''x.pdf'', str ''y.PDF'', str ''notes.txt'', str ''z.pdf'']"
  by (simp add: eval_defs threeWorld_def)

lemma three_valid:
  "validPdfsOf somePlatform threeWorld docs
     [str ''x.pdf'', str ''y.PDF'', str ''notes.txt'', str ''z.pdf''] = [entryX, entryY, entryZ]"
  by (simp add: eval_defs threeWorld_def validPdfsOf_def entryX_def entryY_def entryZ_def)

theorem listAllPdfs_newest_first_witness:
  "documentDirectory somePlatform = Some docs
   \<and> readDirectoryAsync somePlatform threeWorld docs
       = Inr [str ''x.pdf'', str ''y.PDF'', str ''notes.txt'', str ''z.pdf'']
   \<and> modificationTime entryZ < modificationTime entryX
   \<and> modificationTime entryX < modificationTime entryY
   \<and> listAllPdfs somePlatform threeWorld = [entryY, entryX, entryZ]"
proof -
  have d: "documentDirectory somePlatform = Some docs" by (simp add: somePlatform_def)
  have s: "set (validPdfsOf somePlatform threeWorld docs
             [str ''x.pdf'', str ''y.PDF'', str ''notes.txt'', str ''z.pdf''])
           = {entryZ, entryX, entryY}"
    by (auto simp: three_valid)
  have t: "modificationTime entryZ < modificationTime entryX"
    "modificationTime entryX < modificationTime entryY"
    by (simp_all add: entryX_def entryY_def entryZ_def)
  from listAllPdfs_newest_first [of somePlatform threeWorld docs
      "[str ''x.pdf'', str ''y.PDF'', str ''notes.txt'', str ''z.pdf'']" 0 entryZ entryX entryY]
    d three_names s t
  show ?thesis by (simp add: three_valid)
qed

text \<open>
  C5. When the document directory is known and the source does not exist, \<open>renamePdf\<close>
  fails with the error "Source PDF file not found" (under the prefix of its \<open>catch\<close>),
  the files are what they were, and so is the listing.
\<close>

theorem renamePdf_source_not_found:
  "documentDirectory pf = Some d \<Longrightarrow> getInfoAsync pf w src = Inr None \<Longrightarrow>
   renamePdf pf w src raw
     = Some (Inl (Error ''Failed to rename PDF: Source PDF file not found''), w)
   \<and> map_option (\<lambda>(r, w'). (files w', listAllPdfs pf w')) (renamePdf pf w src raw)
       = Some (files w, listAllPdfs pf w)"
  by (simp add: renamePdf_source_missing renameFailure_def)

theorem renamePdf_source_not_found_witness:
  "documentDirectory somePlatform = Some docs
   \<and> getInfoAsync somePlatform someWorld (str ''/c/9.pdf'') = Inr None
   \<and> renamePdf somePlatform someWorld (str ''/c/9.pdf'') (str ''Invoice'')
       = Some (Inl (Error ''Failed to rename PDF: Source PDF file not found''), someWorld)"
proof -
  have d: "documentDirectory somePlatform = Some docs" by (simp add: somePlatform_def)
  have g: "getInfoAsync somePlatform someWorld (str ''/c/9.pdf'') = Inr None"
    by (simp add: eval_defs someWorld_def)
  from renamePdf_source_not_found [OF d g, of "str ''Invoice''"] d g show ?thesis by simp
qed

text \<open>
  C6. \<open>deletePdfFile\<close> on an existing file, when the platform's deletion does not
  reject, removes it and returns true, and a second call then returns false; on a file
  that does not exist it returns false, raises nothing and changes nothing.
\<close>

theorem deletePdfFile_idempotent:
  "(getInfoAsync pf w u = Inr (Some f) \<and> deleteRejects pf u = None \<longrightarrow>
      deletePdfFile pf w u = (Inr True, w\<lparr>files := AList.delete u (files w)\<rparr>)
      \<and> map_of (AList.delete u (files w)) u = None
      \<and> deletePdfFile pf (w\<lparr>files := AList.delete u (files w)\<rparr>) u
          = (Inr False, w\<lparr>files := AList.delete u (files w)\<rparr>))
   \<and> (getInfoAsync pf w u = Inr None \<longrightarrow> deletePdfFile pf w u = (Inr False, w))"
  by (auto simp: deletePdfFile_def deleteAsync_def getInfoAsync_def AList.delete_conv'
      split: option.splits)

theorem deletePdfFile_idempotent_witness:
  "getInfoAsync somePlatform someWorld (str ''/c/1.pdf'')
     = Inr (Some \<lparr>infoSize = 900, infoModificationTime = 40\<rparr>)
   \<and> deleteRejects somePlatform (str ''/c/1.pdf'') = None
   \<and> fst (deletePdfFile somePlatform someWorld (str ''/c/1.pdf'')) = Inr True
   \<and> getInfoAsync somePlatform someWorld (str ''/c/9.pdf'') = Inr None
   \<and> deletePdfFile somePlatform someWorld (str ''/c/9.pdf'') = (Inr False, someWorld)"
proof -
  have g: "getInfoAsync somePlatform someWorld (str ''/c/1.pdf'')
     = Inr (Some \<lparr>infoSize = 900, infoModificationTime = 40\<rparr>)"
    by (simp add: eval_defs someWorld_def)
  have r: "deleteRejects somePlatform (str ''/c/1.pdf'') = None"
    by (simp add: somePlatform_def)
  have n: "getInfoAsync somePlatform someWorld (str ''/c/9.pdf'') = Inr None"
    by (simp add: eval_defs someWorld_def)
  from deletePdfFile_idempotent [of somePlatform someWorld "str ''/c/1.pdf''"
      "\<lparr>infoSize = 900, infoModificationTime = 40\<rparr>"]
    deletePdfFile_idempotent [of somePlatform someWorld "str ''/c/9.pdf''"]
    g r n
  show ?thesis by simp
qed

lemma rethrow_snd: "snd ((rethrow ^^ k) x) = snd x"
  by (cases x; cases "fst x") (simp_all add: rethrow_Inr rethrow_Inl)

lemma rethrow_fst_InrD: "fst ((rethrow ^^ k) x) = Inr u \<Longrightarrow> fst x = Inr u"
  by (cases x; cases "fst x") (simp_all add: rethrow_Inr rethrow_Inl)

text \<open>
  C8. \<open>renamePdf\<close> returns for every platform, also one whose clock stands still, and
  every world: it takes at most as many clock readings as there are files. When the
  directory is known, no metadata read rejects and the source exists, the number k of
  readings taken is the number of retries: the candidates 0 to k - 1 were all taken,
  candidate k was free and is the name of the target, and candidate i + 1 is built from
  candidate i and the reading number i, a new reading for every retry.
\<close>

theorem renamePdf_terminates:
  "\<exists>r w'. renamePdf pf w src raw = Some (r, w') \<and> ticks w \<le> ticks w'
     \<and> ticks w' - ticks w \<le> length (files w)
     \<and> (documentDirectory pf = Some d \<and> (\<forall>p. getInfoRejects pf p = None)
          \<and> map_of (files w) src = Some f \<longrightarrow>
         (\<forall>i < ticks w' - ticks w.
             map_of (files w) (d @ candidateName pf (ticks w) raw i) \<noteq> None)
         \<and> map_of (files w) (d @ candidateName pf (ticks w) raw (ticks w' - ticks w)) = None
         \<and> (\<forall>u. r = Inr u \<longrightarrow> u = d @ candidateName pf (ticks w) raw (ticks w' - ticks w)))"
proof (cases "documentDirectory pf")
  case None
  then show ?thesis by (simp add: renamePdf_no_directory)
next
  case (Some d0)
  from renamePdf_returns_aux [OF Some, of w src raw] obtain r w' where
    r: "renamePdf pf w src raw = Some (r, w')" and
    t: "ticks w \<le> ticks w'" "ticks w' \<le> ticks w + heavier d0 w raw"
    by blast
  from t heavier_le [of d0 w raw] have b: "ticks w' - ticks w \<le> length (files w)" by simp
  have "(\<forall>i < ticks w' - ticks w.
             map_of (files w) (d @ candidateName pf (ticks w) raw i) \<noteq> None)
         \<and> map_of (files w) (d @ candidateName pf (ticks w) raw (ticks w' - ticks w)) = None
         \<and> (\<forall>u. r = Inr u \<longrightarrow> u = d @ candidateName pf (ticks w) raw (ticks w' - ticks w))"
    if h: "documentDirectory pf = Some d \<and> (\<forall>p. getInfoRejects pf p = None)
          \<and> map_of (files w) src = Some f"
  proof -
    from h have d: "documentDirectory pf = Some d" and nr: "\<forall>p. getInfoRejects pf p = None"
      and s: "map_of (files w) src = Some f" by simp_all
    from renamePdf_resolves [OF d nr s, of raw] obtain k where
      taken: "\<forall>i<k. map_of (files w) (d @ candidateName pf (ticks w) raw i) \<noteq> None"
      and free: "map_of (files w) (d @ candidateName pf (ticks w) raw k) = None"
      and res: "renamePdf pf w src raw
               = Some ((rethrow ^^ k)
                         (copyToTarget pf (w\<lparr>ticks := ticks w + k\<rparr>) src
                            (d @ candidateName pf (ticks w) raw k)))"
      by blast
    let ?c = "copyToTarget pf (w\<lparr>ticks := ticks w + k\<rparr>) src
                (d @ candidateName pf (ticks w) raw k)"
    from r res have eq: "(rethrow ^^ k) ?c = (r, w')" by simp
    from eq have "snd ?c = w'" using rethrow_snd [of k ?c] by simp
    with copyToTarget_ticks [of pf "w\<lparr>ticks := ticks w + k\<rparr>" src
        "d @ candidateName pf (ticks w) raw k"]
    have k: "ticks w' - ticks w = k" by auto
    have "u = d @ candidateName pf (ticks w) raw k" if "r = Inr u" for u
    proof -
      from that eq have "fst ((rethrow ^^ k) ?c) = Inr u" by simp
      then have "fst ?c = Inr u" by (rule rethrow_fst_InrD)
      then have "?c = (Inr u, snd ?c)" by (cases ?c) simp
      then show ?thesis by (rule copyToTarget_InrD)
    qed
    with taken free k show ?thesis by simp
  qed
  with r t(1) b show ?thesis by blast
qed

lemma renamePdf_commits:
  assumes d: "documentDirectory pf = Some d"
    and nr: "\<forall>p. getInfoRejects pf p = None"
    and src: "map_of (files w) src = Some f"
    and cp: "\<forall>t. \<exists>m. copyOutcomeOf pf src t = CopySucceeds m"
  shows "\<exists>s m w'. renamePdf pf w src raw = Some (Inr (d @ sanitizeFileName s), w')
           \<and> map_of (files w) (d @ sanitizeFileName s) = None
           \<and> files w' = (if deleteRejects pf src = None then AList.delete src else id)
                           (AList.update (d @ sanitizeFileName s)
                              (f\<lparr>infoModificationTime := m\<rparr>) (files w))"
proof -
  from renamePdf_resolves [OF d nr src, of raw] obtain k where
    free: "map_of (files w) (d @ candidateName pf (ticks w) raw k) = None"
    and res: "renamePdf pf w src raw
               = Some ((rethrow ^^ k)
                         (copyToTarget pf (w\<lparr>ticks := ticks w + k\<rparr>) src
                            (d @ candidateName pf (ticks w) raw k)))"
    by blast
  obtain s where s: "candidateName pf (ticks w) raw k = sanitizeFileName s"
    using candidateName_sanitized by blast
  from cp obtain m where m: "copyOutcomeOf pf src (d @ sanitizeFileName s) = CopySucceeds m"
    by blast
  have src': "map_of (files (w\<lparr>ticks := ticks w + k\<rparr>)) src = Some f" using src by simp
  show ?thesis
    using res free
    unfolding s copyToTarget_succeeds [OF src' m] rethrow_Inr
    by (intro exI [of _ s] exI [of _ m]) simp
qed

lemma committed_files:
  assumes free: "map_of al t = None" and src: "map_of al s = Some f"
    and al': "al' = (if r then AList.delete s else id) (AList.update t g al)"
  shows "map_of al' t = Some g" and "p \<noteq> s \<Longrightarrow> p \<noteq> t \<Longrightarrow> map_of al' p = map_of al p"
    and "\<not> r \<Longrightarrow> map_of al' s = Some f"
proof -
  from free src have ne: "t \<noteq> s" by auto
  show "map_of al' t = Some g"
    using ne by (simp add: al' AList.delete_conv' AList.update_conv')
  show "p \<noteq> s \<Longrightarrow> p \<noteq> t \<Longrightarrow> map_of al' p = map_of al p"
    by (simp add: al' AList.delete_conv' AList.update_conv')
  show "\<not> r \<Longrightarrow> map_of al' s = Some f"
    using ne src by (simp add: al' AList.update_conv')
qed

text \<open>
  C9. When the copy succeeds and the deletion of the source rejects, \<open>renamePdf\<close>
  still returns the target: the target did not exist before, it now holds the copy of
  the source, and the source is still there.
\<close>

theorem renamePdf_delete_failure_swallowed:
  assumes d: "documentDirectory pf = Some d"
    and nr: "\<forall>p. getInfoRejects pf p = None"
    and src: "map_of (files w) src = Some f"
    and cp: "\<forall>t. \<exists>m. copyOutcomeOf pf src t = CopySucceeds m"
    and dl: "deleteRejects pf src = Some msg"
  shows "\<exists>u m w'. renamePdf pf w src raw = Some (Inr u, w')
           \<and> map_of (files w) u = None
           \<and> map_of (files w') u = Some (f\<lparr>infoModificationTime := m\<rparr>)
           \<and> map_of (files w') src = Some f"
proof -
  from renamePdf_commits [OF d nr src cp, of raw] obtain s m w' where
    r: "renamePdf pf w src raw = Some (Inr (d @ sanitizeFileName s), w')"
    and free: "map_of (files w) (d @ sanitizeFileName s) = None"
    and fs: "files w' = (if deleteRejects pf src = None then AList.delete src else id)
                           (AList.update (d @ sanitizeFileName s)
                              (f\<lparr>infoModificationTime := m\<rparr>) (files w))"
    by blast
  from committed_files(1,3) [OF free src fs] dl r free show ?thesis by auto
qed

lemma renameFailure_funpow:
  "(renameFailure ^^ n) (Error m) = Error (concat (replicate n ''Failed to rename PDF: '') @ m)"
  by (induction n) (simp_all add: renameFailure_def)

text \<open>
  C4, amended. When the copy rejects, \<open>renamePdf\<close> fails with the message of the
  copy's error under the prefix "Failed to rename PDF: ", once for the call that copies
  and once more for each of the k retries before it, k being the number of clock readings
  taken (there is no error kind of its own). It does not delete the source and cleans
  nothing up: the files are left as the failed copy left them, with the partial file at
  the target, the k-th candidate in the document directory, if the copy wrote one.
\<close>

theorem renamePdf_copy_failure:
  assumes d: "documentDirectory pf = Some d"
    and nr: "\<forall>p. getInfoRejects pf p = None"
    and src: "map_of (files w) src = Some f"
    and cp: "\<forall>t. copyOutcomeOf pf src t = CopyRejects msg partial"
  shows "\<exists>k w'. renamePdf pf w src raw
                   = Some (Inl (Error (concat (replicate (Suc k) ''Failed to rename PDF: '')
                                       @ msg)), w')
           \<and> ticks w' = ticks w + k
           \<and> (\<forall>i<k. map_of (files w) (d @ candidateName pf (ticks w) raw i) \<noteq> None)
           \<and> map_of (files w) (d @ candidateName pf (ticks w) raw k) = None
           \<and> files w' = (case partial of
                           None \<Rightarrow> files w
                         | Some p \<Rightarrow> files w @ [(d @ candidateName pf (ticks w) raw k, p)])
           \<and> map_of (files w') src = Some f"
proof -
  from renamePdf_resolves [OF d nr src, of raw] obtain k where
    taken: "\<forall>i<k. map_of (files w) (d @ candidateName pf (ticks w) raw i) \<noteq> None"
    and free: "map_of (files w) (d @ candidateName pf (ticks w) raw k) = None"
    and res: "renamePdf pf w src raw
               = Some ((rethrow ^^ k)
                         (copyToTarget pf (w\<lparr>ticks := ticks w + k\<rparr>) src
                            (d @ candidateName pf (ticks w) raw k)))"
    by blast
  let ?t = "d @ candidateName pf (ticks w) raw k"
  let ?w = "w\<lparr>ticks := ticks w + k\<rparr>"
  let ?w' = "case partial of None \<Rightarrow> ?w | Some p \<Rightarrow> ?w\<lparr>files := AList.update ?t p (files ?w)\<rparr>"
  have src': "map_of (files ?w) src = Some f" using src by simp
  from cp have c: "copyOutcomeOf pf src ?t = CopyRejects msg partial" by simp
  have "renamePdf pf w src raw = Some (Inl ((renameFailure ^^ Suc k) (Error msg)), ?w')"
    unfolding res copyToTarget_rejects [OF src' c] rethrow_Inl
    by (simp add: funpow_swap1)
  then have r: "renamePdf pf w src raw
                   = Some (Inl (Error (concat (replicate (Suc k) ''Failed to rename PDF: '')
                                       @ msg)), ?w')"
    unfolding renameFailure_funpow .
  have tk: "ticks ?w' = ticks w + k" by (simp split: option.splits)
  have fs: "files ?w' = (case partial of None \<Rightarrow> files w | Some p \<Rightarrow> files w @ [(?t, p)])"
    using free by (simp add: update_absent split: option.splits)
  from free src have "?t \<noteq> src" by auto
  with src have s: "map_of (files ?w') src = Some f"
    by (simp add: fs split: option.splits)
  show ?thesis
    by (intro exI [of _ k] exI [of _ ?w'] conjI) (fact r tk taken free fs s)+
qed
lemmas store_defs = eval_defs sanitizeFileName_def isSafeUnit_def trim_def isWhiteSpace_def
  hasPdfExt_def removePdfExt_def copyToTarget_def copyAsync_def deleteAsync_def Date_now_def
  String_of_nat.simps digitUnit_def renameFailure_def

lemma first_commit:
  "renamePdf somePlatform someWorld (str ''/c/1.pdf'') (str ''Invoice'')
     = Some (Inr (str ''/d/Invoice.pdf''),
             \<lparr>files = [(str ''/c/2.pdf'', \<lparr>infoSize = 800, infoModificationTime = 41\<rparr>),
                       (str ''/d/Invoice.pdf'', \<lparr>infoSize = 900, infoModificationTime = 50\<rparr>)],
              ticks = 0\<rparr>)"
  by (subst renamePdf.simps) (simp add: store_defs someWorld_def)

lemma second_commit:
  "renamePdf somePlatform
     \<lparr>files = [(str ''/c/2.pdf'', \<lparr>infoSize = 800, infoModificationTime = 41\<rparr>),
               (str ''/d/Invoice.pdf'', \<lparr>infoSize = 900, infoModificationTime = 50\<rparr>)],
      ticks = 0\<rparr> (str ''/c/2.pdf'') (str ''Invoice'')
     = Some (Inr (str ''/d/Invoice_1700.pdf''),
             \<lparr>files = [(str ''/d/Invoice.pdf'', \<lparr>infoSize = 900, infoModificationTime = 50\<rparr>),
                       (str ''/d/Invoice_1700.pdf'', \<lparr>infoSize = 800, infoModificationTime = 50\<rparr>)],
              ticks = 1\<rparr>)"
  apply (subst renamePdf.simps)
  apply (simp add: store_defs)
  apply (subst renamePdf.simps)
  apply (simp add: store_defs)
  done

lemma frozen_commit:
  "renamePdf frozenClock crowdedWorld (str ''/c/1.pdf'') (str ''a'')
     = Some (Inr (str ''/d/a_7_7.pdf''),
             \<lparr>files = [(str ''/d/a.pdf'', \<lparr>infoSize = 1, infoModificationTime = 5\<rparr>),
                       (str ''/d/a_7.pdf'', \<lparr>infoSize = 2, infoModificationTime = 6\<rparr>),
                       (str ''/d/a_7_7.pdf'', \<lparr>infoSize = 900, infoModificationTime = 50\<rparr>)],
              ticks = 2\<rparr>)"
  apply (subst renamePdf.simps)
  apply (simp add: store_defs frozenClock_def crowdedWorld_def)
  apply (subst renamePdf.simps)
  apply (simp add: store_defs)
  apply (subst renamePdf.simps)
  apply (simp add: store_defs)
  done

lemma full_commit:
  "renamePdf fullDisk someWorld (str ''/c/1.pdf'') (str ''Invoice'')
     = Some (Inl (Error ''Failed to rename PDF: No space left on device''),
             \<lparr>files = [(str ''/c/1.pdf'', \<lparr>infoSize = 900, infoModificationTime = 40\<rparr>),
                       (str ''/c/2.pdf'', \<lparr>infoSize = 800, infoModificationTime = 41\<rparr>),
                       (str ''/d/Invoice.pdf'', \<lparr>infoSize = 10, infoModificationTime = 50\<rparr>)],
              ticks = 0\<rparr>)"
  by (subst renamePdf.simps) (simp add: store_defs someWorld_def fullDisk_def)

lemma stuck_commit:
  "renamePdf stuckSource someWorld (str ''/c/1.pdf'') (str ''Invoice'')
     = Some (Inr (str ''/d/Invoice.pdf''),
             \<lparr>files = [(str ''/c/1.pdf'', \<lparr>infoSize = 900, infoModificationTime = 40\<rparr>),
                       (str ''/c/2.pdf'', \<lparr>infoSize = 800, infoModificationTime = 41\<rparr>),
                       (str ''/d/Invoice.pdf'', \<lparr>infoSize = 900, infoModificationTime = 50\<rparr>)],
              ticks = 0\<rparr>)"
  by (subst renamePdf.simps) (simp add: store_defs someWorld_def stuckSource_def)

text \<open>
  C1. The name that \<open>renamePdf\<close> returns did not exist when it was called. When no
  platform call rejects and the source exists, the call returns such a name u1. A second
  call with the same desired name, in any later world where the first document is still
  there and for any existing source but that document, returns a different name u2, and
  both documents are in the listing afterwards.
\<close>

theorem renamePdf_never_overwrites:
  "(renamePdf pf w src raw = Some (Inr u, w') \<longrightarrow> map_of (files w) u = None)
   \<and> (documentDirectory pf = Some d \<and> (\<forall>p. getInfoRejects pf p = None)
        \<and> readDirectoryRejects pf = None
        \<and> (\<forall>a b. \<exists>m. copyOutcomeOf pf a b = CopySucceeds m)
        \<and> map_of (files w) src1 = Some f1 \<longrightarrow>
       (\<exists>u1 w1.
          renamePdf pf w src1 raw = Some (Inr u1, w1)
          \<and> map_of (files w) u1 = None \<and> map_of (files w1) u1 \<noteq> None
          \<and> (\<forall>(v::world) src2. map_of (files v) u1 \<noteq> None \<and> map_of (files v) src2 \<noteq> None
                  \<and> src2 \<noteq> u1 \<longrightarrow>
                (\<exists>u2 w2. renamePdf pf v src2 raw = Some (Inr u2, w2)
                   \<and> u1 \<noteq> u2
                   \<and> u1 \<in> uri ` set (listAllPdfs pf w2)
                   \<and> u2 \<in> uri ` set (listAllPdfs pf w2)))))"
proof (intro conjI impI)
  assume "renamePdf pf w src raw = Some (Inr u, w')"
  then show "map_of (files w) u = None" by (rule renamePdf_success_free)
next
  assume h: "documentDirectory pf = Some d \<and> (\<forall>p. getInfoRejects pf p = None)
        \<and> readDirectoryRejects pf = None
        \<and> (\<forall>a b. \<exists>m. copyOutcomeOf pf a b = CopySucceeds m)
        \<and> map_of (files w) src1 = Some f1"
  then have d: "documentDirectory pf = Some d" and nr: "\<forall>p. getInfoRejects pf p = None"
    and rd: "readDirectoryRejects pf = None"
    and cp: "\<And>a. \<forall>t. \<exists>m. copyOutcomeOf pf a t = CopySucceeds m"
    and s1: "map_of (files w) src1 = Some f1"
    by simp_all
  from renamePdf_commits [OF d nr s1 cp, of raw] obtain n1 m1 w1 where
    r1: "renamePdf pf w src1 raw = Some (Inr (d @ sanitizeFileName n1), w1)"
    and free1: "map_of (files w) (d @ sanitizeFileName n1) = None"
    and fs1: "files w1 = (if deleteRejects pf src1 = None then AList.delete src1 else id)
                           (AList.update (d @ sanitizeFileName n1)
                              (f1\<lparr>infoModificationTime := m1\<rparr>) (files w))"
    by blast
  let ?u1 = "d @ sanitizeFileName n1"
  have in1: "map_of (files w1) ?u1 \<noteq> None"
    using committed_files(1) [OF free1 s1 fs1] by simp
  have second: "\<exists>u2 w2. renamePdf pf v src2 raw = Some (Inr u2, w2)
                   \<and> ?u1 \<noteq> u2
                   \<and> ?u1 \<in> uri ` set (listAllPdfs pf w2)
                   \<and> u2 \<in> uri ` set (listAllPdfs pf w2)"
    if v: "map_of (files v) ?u1 \<noteq> None \<and> map_of (files v) src2 \<noteq> None \<and> src2 \<noteq> ?u1"
    for v :: world and src2
  proof -
    from v obtain g1 f2 where g1: "map_of (files v) ?u1 = Some g1"
      and s2: "map_of (files v) src2 = Some f2" and ne: "?u1 \<noteq> src2"
      by auto
    from renamePdf_commits [OF d nr s2 cp, of raw] obtain n2 m2 w2 where
      r2: "renamePdf pf v src2 raw = Some (Inr (d @ sanitizeFileName n2), w2)"
      and free2: "map_of (files v) (d @ sanitizeFileName n2) = None"
      and fs2: "files w2 = (if deleteRejects pf src2 = None then AList.delete src2 else id)
                             (AList.update (d @ sanitizeFileName n2)
                                (f2\<lparr>infoModificationTime := m2\<rparr>) (files v))"
      by blast
    let ?u2 = "d @ sanitizeFileName n2"
    from g1 free2 have u12: "?u1 \<noteq> ?u2" by auto
    have in2: "map_of (files w2) ?u2 = Some (f2\<lparr>infoModificationTime := m2\<rparr>)"
      by (rule committed_files(1) [OF free2 s2 fs2])
    have in1': "map_of (files w2) ?u1 = Some g1"
      using committed_files(2) [OF free2 s2 fs2, of ?u1] ne u12 g1 by simp
    from nr have g: "getInfoRejects pf ?u1 = None" "getInfoRejects pf ?u2 = None" by simp_all
    have l1: "?u1 \<in> uri ` set (listAllPdfs pf w2)"
      by (rule image_eqI [OF _ listed [OF d rd g(1) in1']]) simp
    have l2: "?u2 \<in> uri ` set (listAllPdfs pf w2)"
      by (rule image_eqI [OF _ listed [OF d rd g(2) in2]]) simp
    show ?thesis
      by (intro exI [of _ ?u2] exI [of _ w2] conjI) (fact r2 u12 l1 l2)+
  qed
  show "\<exists>u1 w1.
          renamePdf pf w src1 raw = Some (Inr u1, w1)
          \<and> map_of (files w) u1 = None \<and> map_of (files w1) u1 \<noteq> None
          \<and> (\<forall>(v::world) src2. map_of (files v) u1 \<noteq> None \<and> map_of (files v) src2 \<noteq> None
                  \<and> src2 \<noteq> u1 \<longrightarrow>
                (\<exists>u2 w2. renamePdf pf v src2 raw = Some (Inr u2, w2)
                   \<and> u1 \<noteq> u2
                   \<and> u1 \<in> uri ` set (listAllPdfs pf w2)
                   \<and> u2 \<in> uri ` set (listAllPdfs pf w2)))"
  proof (intro exI [of _ ?u1] exI [of _ w1] conjI)
    show "renamePdf pf w src1 raw = Some (Inr ?u1, w1)" by (fact r1)
    show "map_of (files w) ?u1 = None" by (fact free1)
    show "map_of (files w1) ?u1 \<noteq> None" by (fact in1)
    show "\<forall>(v::world) src2. map_of (files v) ?u1 \<noteq> None \<and> map_of (files v) src2 \<noteq> None
                  \<and> src2 \<noteq> ?u1 \<longrightarrow>
                (\<exists>u2 w2. renamePdf pf v src2 raw = Some (Inr u2, w2)
                   \<and> ?u1 \<noteq> u2
                   \<and> ?u1 \<in> uri ` set (listAllPdfs pf w2)
                   \<and> u2 \<in> uri ` set (listAllPdfs pf w2))"
      by (intro allI impI) (rule second)
  qed
qed

lemma someWorld_sources:
  "map_of (files someWorld) (str ''/c/1.pdf'') = Some \<lparr>infoSize = 900, infoModificationTime = 40\<rparr>"
  "map_of (files someWorld) (str ''/c/2.pdf'') = Some \<lparr>infoSize = 800, infoModificationTime = 41\<rparr>"
  "str ''/c/1.pdf'' \<noteq> str ''/c/2.pdf''"
  by (simp_all add: someWorld_def str_def)

lemma after_second_list:
  "map name (listAllPdfs somePlatform afterSecond) = [str ''Invoice.pdf'', str ''Invoice_1700.pdf'']"
  by (simp add: eval_defs afterSecond_def)

theorem renamePdf_never_overwrites_witness:
  "renamePdf somePlatform someWorld (str ''/c/1.pdf'') (str ''Invoice'')
     = Some (Inr (str ''/d/Invoice.pdf''), afterFirst)
   \<and> map_of (files someWorld) (str ''/d/Invoice.pdf'') = None
   \<and> renamePdf somePlatform afterFirst (str ''/c/2.pdf'') (str ''Invoice'')
     = Some (Inr (str ''/d/Invoice_1700.pdf''), afterSecond)
   \<and> str ''/d/Invoice.pdf'' \<noteq> str ''/d/Invoice_1700.pdf''
   \<and> str ''/d/Invoice.pdf'' \<in> uri ` set (listAllPdfs somePlatform afterSecond)
   \<and> str ''/d/Invoice_1700.pdf'' \<in> uri ` set (listAllPdfs somePlatform afterSecond)
   \<and> map name (listAllPdfs somePlatform afterSecond)
       = [str ''Invoice.pdf'', str ''Invoice_1700.pdf'']"
proof -
  have c1: "renamePdf somePlatform someWorld (str ''/c/1.pdf'') (str ''Invoice'')
     = Some (Inr (str ''/d/Invoice.pdf''), afterFirst)"
    by (simp add: first_commit afterFirst_def)
  have c2: "renamePdf somePlatform afterFirst (str ''/c/2.pdf'') (str ''Invoice'')
     = Some (Inr (str ''/d/Invoice_1700.pdf''), afterSecond)"
    by (simp add: second_commit afterFirst_def afterSecond_def)
  have p: "documentDirectory somePlatform = Some docs"
    "\<forall>p. getInfoRejects somePlatform p = None"
    "readDirectoryRejects somePlatform = None"
    "\<forall>a b. \<exists>m. copyOutcomeOf somePlatform a b = CopySucceeds m"
    by (simp_all add: somePlatform_def)
  note T = renamePdf_never_overwrites [of somePlatform someWorld "str ''/c/1.pdf''"
      "str ''Invoice''" "str ''/d/Invoice.pdf''" afterFirst docs "str ''/c/1.pdf''"
      "\<lparr>infoSize = 900, infoModificationTime = 40\<rparr>"]
  have a: "map_of (files someWorld) (str ''/d/Invoice.pdf'') = None"
    by (rule T [THEN conjunct1, THEN mp, OF c1])
  have "\<exists>u1 w1.
          renamePdf somePlatform someWorld (str ''/c/1.pdf'') (str ''Invoice'') = Some (Inr u1, w1)
          \<and> map_of (files someWorld) u1 = None \<and> map_of (files w1) u1 \<noteq> None
          \<and> (\<forall>(v::world) src2. map_of (files v) u1 \<noteq> None \<and> map_of (files v) src2 \<noteq> None
                  \<and> src2 \<noteq> u1 \<longrightarrow>
                (\<exists>u2 w2. renamePdf somePlatform v src2 (str ''Invoice'') = Some (Inr u2, w2)
                   \<and> u1 \<noteq> u2
                   \<and> u1 \<in> uri ` set (listAllPdfs somePlatform w2)
                   \<and> u2 \<in> uri ` set (listAllPdfs somePlatform w2)))"
    by (rule T [THEN conjunct2, THEN mp]) (intro conjI p someWorld_sources(1))
  then obtain u1 w1 where
    r1: "renamePdf somePlatform someWorld (str ''/c/1.pdf'') (str ''Invoice'') = Some (Inr u1, w1)"
    and nxt: "\<And>v src2. map_of (files v) u1 \<noteq> None \<and> map_of (files v) src2 \<noteq> None
                  \<and> src2 \<noteq> u1 \<Longrightarrow>
                (\<exists>u2 w2. renamePdf somePlatform v src2 (str ''Invoice'') = Some (Inr u2, w2)
                   \<and> u1 \<noteq> u2
                   \<and> u1 \<in> uri ` set (listAllPdfs somePlatform w2)
                   \<and> u2 \<in> uri ` set (listAllPdfs somePlatform w2))"
    by (elim exE conjE) (rule that, assumption, simp)
  from r1 c1 have u1: "u1 = str ''/d/Invoice.pdf''" by simp
  have pre: "map_of (files afterFirst) u1 \<noteq> None
             \<and> map_of (files afterFirst) (str ''/c/2.pdf'') \<noteq> None \<and> str ''/c/2.pdf'' \<noteq> u1"
    unfolding u1 by (simp add: afterFirst_def str_def)
  from nxt [OF pre] obtain u2 w2 where
    r2: "renamePdf somePlatform afterFirst (str ''/c/2.pdf'') (str ''Invoice'') = Some (Inr u2, w2)"
    and rest: "u1 \<noteq> u2" "u1 \<in> uri ` set (listAllPdfs somePlatform w2)"
      "u2 \<in> uri ` set (listAllPdfs somePlatform w2)"
    by (elim exE conjE)
  from r2 c2 have u2: "u2 = str ''/d/Invoice_1700.pdf''" and w2: "w2 = afterSecond" by simp_all
  note rest' = rest [unfolded u1 u2 w2]
  show ?thesis
    by (intro conjI) (fact c1 a c2 after_second_list rest')+
qed

text \<open>
  C4, as the claim states it, fails: when the copy rejects after writing a part of the
  target, \<open>renamePdf\<close> fails and the partial file stays in the document directory,
  where \<open>listAllPdfs\<close> shows it.
\<close>

theorem renamePdf_partial_copy_counterexample:
  "map_of (files someWorld) (str ''/d/Invoice.pdf'') = None
   \<and> (\<exists>w'. renamePdf fullDisk someWorld (str ''/c/1.pdf'') (str ''Invoice'')
              = Some (Inl (Error ''Failed to rename PDF: No space left on device''), w')
            \<and> map_of (files w') (str ''/d/Invoice.pdf'')
                = Some \<lparr>infoSize = 10, infoModificationTime = 50\<rparr>
            \<and> map name (listAllPdfs fullDisk w') = [str ''Invoice.pdf''])"
  by (simp add: full_commit) (simp add: eval_defs someWorld_def fullDisk_def)

lemma full_retry:
  "renamePdf fullDisk afterFirst (str ''/c/2.pdf'') (str ''Invoice'')
     = Some (Inl (Error ''Failed to rename PDF: Failed to rename PDF: No space left on device''),
             \<lparr>files = [(str ''/c/2.pdf'', \<lparr>infoSize = 800, infoModificationTime = 41\<rparr>),
                       (str ''/d/Invoice.pdf'', \<lparr>infoSize = 900, infoModificationTime = 50\<rparr>),
                       (str ''/d/Invoice_1700.pdf'', \<lparr>infoSize = 10, infoModificationTime = 50\<rparr>)],
              ticks = 1\<rparr>)"
  apply (subst renamePdf.simps)
  apply (simp add: store_defs fullDisk_def afterFirst_def)
  apply (subst renamePdf.simps)
  apply (simp add: store_defs)
  done

lemma full_candidates:
  "candidateName fullDisk 0 (str ''Invoice'') 0 = str ''Invoice.pdf''"
  "candidateName fullDisk 0 (str ''Invoice'') 1 = str ''Invoice_1700.pdf''"
  by (simp_all add: nextName_def store_defs fullDisk_def)

theorem renamePdf_copy_failure_witness:
  "documentDirectory fullDisk = Some docs
   \<and> (\<forall>p. getInfoRejects fullDisk p = None)
   \<and> map_of (files afterFirst) (str ''/c/2.pdf'')
       = Some \<lparr>infoSize = 800, infoModificationTime = 41\<rparr>
   \<and> (\<forall>t. copyOutcomeOf fullDisk (str ''/c/2.pdf'') t
            = CopyRejects ''No space left on device''
                (Some \<lparr>infoSize = 10, infoModificationTime = 50\<rparr>))
   \<and> map_of (files afterFirst) (str ''/d/Invoice.pdf'') \<noteq> None
   \<and> candidateName fullDisk 0 (str ''Invoice'') 1 = str ''Invoice_1700.pdf''
   \<and> (\<exists>w'. renamePdf fullDisk afterFirst (str ''/c/2.pdf'') (str ''Invoice'')
              = Some (Inl (Error
                  ''Failed to rename PDF: Failed to rename PDF: No space left on device''), w')
          \<and> ticks w' = ticks afterFirst + 1
          \<and> files w' = files afterFirst
                         @ [(str ''/d/Invoice_1700.pdf'',
                             \<lparr>infoSize = 10, infoModificationTime = 50\<rparr>)])
   \<and> (\<exists>k w'. renamePdf fullDisk afterFirst (str ''/c/2.pdf'') (str ''Invoice'')
                = Some (Inl (Error (concat (replicate (Suc k) ''Failed to rename PDF: '')
                                    @ ''No space left on device'')), w')
          \<and> ticks w' = ticks afterFirst + k
          \<and> (\<forall>i<k. map_of (files afterFirst)
                        (docs @ candidateName fullDisk (ticks afterFirst) (str ''Invoice'') i)
                      \<noteq> None)
          \<and> map_of (files afterFirst)
               (docs @ candidateName fullDisk (ticks afterFirst) (str ''Invoice'') k) = None
          \<and> files w' = files afterFirst
                         @ [(docs @ candidateName fullDisk (ticks afterFirst) (str ''Invoice'') k,
                             \<lparr>infoSize = 10, infoModificationTime = 50\<rparr>)]
          \<and> map_of (files w') (str ''/c/2.pdf'')
              = Some \<lparr>infoSize = 800, infoModificationTime = 41\<rparr>)"
proof -
  have p: "documentDirectory fullDisk = Some docs"
    "\<forall>p. getInfoRejects fullDisk p = None"
    "\<forall>t. copyOutcomeOf fullDisk (str ''/c/2.pdf'') t
            = CopyRejects ''No space left on device''
                (Some \<lparr>infoSize = 10, infoModificationTime = 50\<rparr>)"
    by (simp_all add: fullDisk_def somePlatform_def)
  have s: "map_of (files afterFirst) (str ''/c/2.pdf'')
       = Some \<lparr>infoSize = 800, infoModificationTime = 41\<rparr>"
    by (simp add: afterFirst_def)
  have i: "map_of (files afterFirst) (str ''/d/Invoice.pdf'') \<noteq> None"
    by (simp add: afterFirst_def str_def)
  have e: "\<exists>w'. renamePdf fullDisk afterFirst (str ''/c/2.pdf'') (str ''Invoice'')
              = Some (Inl (Error
                  ''Failed to rename PDF: Failed to rename PDF: No space left on device''), w')
          \<and> ticks w' = ticks afterFirst + 1
          \<and> files w' = files afterFirst
                         @ [(str ''/d/Invoice_1700.pdf'',
                             \<lparr>infoSize = 10, infoModificationTime = 50\<rparr>)]"
    by (simp add: full_retry) (simp add: afterFirst_def)
  have t: "\<exists>k w'. renamePdf fullDisk afterFirst (str ''/c/2.pdf'') (str ''Invoice'')
                = Some (Inl (Error (concat (replicate (Suc k) ''Failed to rename PDF: '')
                                    @ ''No space left on device'')), w')
          \<and> ticks w' = ticks afterFirst + k
          \<and> (\<forall>i<k. map_of (files afterFirst)
                        (docs @ candidateName fullDisk (ticks afterFirst) (str ''Invoice'') i)
                      \<noteq> None)
          \<and> map_of (files afterFirst)
               (docs @ candidateName fullDisk (ticks afterFirst) (str ''Invoice'') k) = None
          \<and> files w' = files afterFirst
                         @ [(docs @ candidateName fullDisk (ticks afterFirst) (str ''Invoice'') k,
                             \<lparr>infoSize = 10, infoModificationTime = 50\<rparr>)]
          \<and> map_of (files w') (str ''/c/2.pdf'')
              = Some \<lparr>infoSize = 800, infoModificationTime = 41\<rparr>"
    using renamePdf_copy_failure [OF p(1) p(2) s p(3), of "str ''Invoice''"]
    by (simp only: option.case)
  show ?thesis
    by (intro conjI) (fact p s i e t full_candidates)+
qed
theorem renamePdf_delete_failure_swallowed_witness:
  "documentDirectory stuckSource = Some docs
   \<and> (\<forall>p. getInfoRejects stuckSource p = None)
   \<and> map_of (files someWorld) (str ''/c/1.pdf'')
       = Some \<lparr>infoSize = 900, infoModificationTime = 40\<rparr>
   \<and> (\<forall>t. \<exists>m. copyOutcomeOf stuckSource (str ''/c/1.pdf'') t = CopySucceeds m)
   \<and> deleteRejects stuckSource (str ''/c/1.pdf'') = Some ''Permission denied''
   \<and> (\<exists>u m w'. renamePdf stuckSource someWorld (str ''/c/1.pdf'') (str ''Invoice'')
                  = Some (Inr u, w')
          \<and> map_of (files someWorld) u = None
          \<and> map_of (files w') u = Some \<lparr>infoSize = 900, infoModificationTime = m\<rparr>
          \<and> map_of (files w') (str ''/c/1.pdf'')
              = Some \<lparr>infoSize = 900, infoModificationTime = 40\<rparr>)"
proof -
  have p: "documentDirectory stuckSource = Some docs"
    "\<forall>p. getInfoRejects stuckSource p = None"
    "\<forall>t. \<exists>m. copyOutcomeOf stuckSource (str ''/c/1.pdf'') t = CopySucceeds m"
    "deleteRejects stuckSource (str ''/c/1.pdf'') = Some ''Permission denied''"
    by (simp_all add: stuckSource_def somePlatform_def)
  from renamePdf_delete_failure_swallowed [OF p(1) p(2) someWorld_sources(1) p(3) p(4),
      of "str ''Invoice''"] p someWorld_sources(1)
  show ?thesis by simp
qed

lemma crowded_source:
  "map_of (files crowdedWorld) (str ''/c/1.pdf'')
     = Some \<lparr>infoSize = 900, infoModificationTime = 40\<rparr>"
  by (simp add: crowdedWorld_def str_def)

theorem renamePdf_terminates_witness:
  "documentDirectory frozenClock = Some docs
   \<and> (\<forall>p. getInfoRejects frozenClock p = None)
   \<and> map_of (files crowdedWorld) (str ''/c/1.pdf'')
       = Some \<lparr>infoSize = 900, infoModificationTime = 40\<rparr>
   \<and> clock frozenClock 0 = clock frozenClock 1
   \<and> (\<exists>w'. renamePdf frozenClock crowdedWorld (str ''/c/1.pdf'') (str ''a'')
              = Some (Inr (str ''/d/a_7_7.pdf''), w')
            \<and> ticks w' = 2
            \<and> str ''/d/a_7_7.pdf'' = docs @ candidateName frozenClock 0 (str ''a'') 2
            \<and> map_of (files crowdedWorld) (docs @ candidateName frozenClock 0 (str ''a'') 0) \<noteq> None
            \<and> map_of (files crowdedWorld) (docs @ candidateName frozenClock 0 (str ''a'') 1) \<noteq> None
            \<and> map_of (files crowdedWorld) (docs @ candidateName frozenClock 0 (str ''a'') 2) = None)"
proof -
  have p: "documentDirectory frozenClock = Some docs"
    "\<forall>p. getInfoRejects frozenClock p = None"
    "clock frozenClock 0 = clock frozenClock 1"
    by (simp_all add: frozenClock_def somePlatform_def)
  have t0: "ticks crowdedWorld = 0" by (simp add: crowdedWorld_def)
  from renamePdf_terminates [of frozenClock crowdedWorld "str ''/c/1.pdf''" "str ''a''" docs
      "\<lparr>infoSize = 900, infoModificationTime = 40\<rparr>"] p crowded_source frozen_commit t0
  show ?thesis
    by (auto simp: numeral_2_eq_2)
qed

end
